theory Spec2Isabelle
  imports Complex_Main "HOL-Library.Word"
begin

section \<open>Audio codec utilities\<close>

text \<open>
  The components keep PCM audio in typed arrays: an element of an \<open>Int16Array\<close> is a
  16-bit word read as two's complement, an element of a \<open>Uint8Array\<close> an 8-bit word.
  JavaScript numbers are modelled by the reals: samples, weights and clock readings are
  finite and every operation on them is the exact one. A number that may be \<open>NaN\<close>
  (arithmetic on the \<open>undefined\<close> of an out-of-range typed-array read) is a
  \<open>real option\<close>, with \<open>None\<close> for \<open>NaN\<close>.
\<close>

type_synonym int16 = "16 word"
type_synonym uint8 = "8 word"

text \<open>\<open>Math.round\<close> rounds half up; the integer part of a number drops its fraction.\<close>

definition js_round :: "real \<Rightarrow> int" where
  "js_round x = \<lfloor>x + 1 / 2\<rfloor>"

definition js_trunc :: "real \<Rightarrow> int" where
  "js_trunc x = (if x < 0 then - \<lfloor>- x\<rfloor> else \<lfloor>x\<rfloor>)"

text \<open>
  Storing a number into an \<open>Int16Array\<close> element: the fraction is dropped and the integer
  is taken modulo \<open>2^16\<close>; \<open>NaN\<close> is stored as 0.
\<close>

definition toInt16 :: "real \<Rightarrow> int16" where
  "toInt16 x = word_of_int (js_trunc x)"

definition store16 :: "real option \<Rightarrow> int16" where
  "store16 v = (case v of None \<Rightarrow> 0 | Some x \<Rightarrow> toInt16 x)"

definition jmul :: "real option \<Rightarrow> real option \<Rightarrow> real option" where
  "jmul a b = (case a of None \<Rightarrow> None | Some x \<Rightarrow> (case b of None \<Rightarrow> None | Some y \<Rightarrow> Some (x * y)))"

definition jadd :: "real option \<Rightarrow> real option \<Rightarrow> real option" where
  "jadd a b = (case a of None \<Rightarrow> None | Some x \<Rightarrow> (case b of None \<Rightarrow> None | Some y \<Rightarrow> Some (x + y)))"

text \<open>Reading \<open>audioData[i]\<close>: \<open>undefined\<close> outside the array.\<close>

definition ta_get :: "int16 list \<Rightarrow> int \<Rightarrow> real option" where
  "ta_get a i = (if 0 \<le> i \<and> i < int (length a) then Some (real_of_int (sint (a ! nat i))) else None)"

subsection \<open>Quantisation: \<open>float32ToInt16\<close> and the worklet's \<open>PCMProcessor.process\<close>\<close>

definition float32ToInt16_sample :: "real \<Rightarrow> int16" where
  "float32ToInt16_sample x =
     (let s = max (- 1) (min 1 x)
      in toInt16 (if s < 0 then s * 32768 else s * 32767))"

definition float32ToInt16 :: "real list \<Rightarrow> int16 list" where
  "float32ToInt16 float32 = map (\<lambda>i. float32ToInt16_sample (float32 ! i)) [0..<length float32]"

text \<open>
  The worklet draws \<open>Math.random()\<close> once per sample; the draw \<open>r\<close>, a number in
  \<open>[0, 1)\<close>, is an argument of the model.
\<close>

definition pcm_sample :: "real \<Rightarrow> real \<Rightarrow> int16" where
  "pcm_sample x r =
     (let s = max (- 1) (min 1 x);
          dither = (r * 2 - 1) / 32768;
          s = s + dither
      in toInt16 (if s < 0 then s * 32768 else s * 32767))"

text \<open>
  \<open>process\<close> posts the quantised first channel of its first input, when that input has
  a channel; \<open>rnd ! i\<close> is the draw for sample \<open>i\<close>.
\<close>

definition process :: "real list list \<Rightarrow> real list \<Rightarrow> int16 list option" where
  "process input rnd =
     (if length input > 0
      then (let float32Data = input ! 0
            in Some (map (\<lambda>i. pcm_sample (float32Data ! i) (rnd ! i)) [0..<length float32Data]))
      else None)"

text \<open>The conversion of PCM16 back to a float, as \<open>play24kAudio\<close> does it.\<close>

definition pcm16ToFloat :: "int16 \<Rightarrow> real" where
  "pcm16ToFloat v = real_of_int (sint v) / 32768"

text \<open>The decoder that undoes the asymmetric scale of the quantiser.\<close>

definition pcm16ToFloat_asym :: "int16 \<Rightarrow> real" where
  "pcm16ToFloat_asym v = (if sint v < 0 then real_of_int (sint v) / 32768 else real_of_int (sint v) / 32767)"

subsection \<open>Resampling 24 kHz to 16 kHz: \<open>downsampleTo16k\<close>\<close>

definition ratio :: real where
  "ratio = 24000 / 16000"

definition newLength :: "int16 list \<Rightarrow> nat" where
  "newLength audioData = nat (js_round (real (length audioData) / ratio))"

text \<open>
  One iteration of the loop of the linear-interpolation variant, returning the indices of
  \<open>audioData\<close> it reads together with the value stored in \<open>result[i]\<close>.
\<close>

definition linear_step :: "int16 list \<Rightarrow> nat \<Rightarrow> int list \<times> int16" where
  "linear_step audioData i =
     (let index = real i * ratio;
          low = \<lfloor>index\<rfloor>;
          high = \<lceil>index\<rceil>;
          weight = index - real_of_int low
      in if high < int (length audioData)
         then ([low, high],
               store16 (jadd (jmul (ta_get audioData low) (Some (1 - weight)))
                             (jmul (ta_get audioData high) (Some weight))))
         else ([low], store16 (ta_get audioData low)))"

definition downsampleTo16k_linear :: "int16 list \<Rightarrow> int16 list" where
  "downsampleTo16k_linear audioData =
     map (\<lambda>i. snd (linear_step audioData i)) [0..<newLength audioData]"

text \<open>The same for the variant with the 3-tap filter \<open>[0.25, 0.5, 0.25]\<close>.\<close>

definition filter_step :: "int16 list \<Rightarrow> nat \<Rightarrow> int list \<times> int16" where
  "filter_step audioData i =
     (let center = \<lfloor>real i * ratio\<rfloor>
      in if center > 0 \<and> center < int (length audioData) - 1
         then ([center - 1, center, center + 1],
               store16 (jadd (jadd (jmul (ta_get audioData (center - 1)) (Some (1 / 4)))
                                   (jmul (ta_get audioData center) (Some (1 / 2))))
                             (jmul (ta_get audioData (center + 1)) (Some (1 / 4)))))
         else ([center], store16 (ta_get audioData center)))"

definition downsampleTo16k :: "int16 list \<Rightarrow> int16 list" where
  "downsampleTo16k audioData =
     map (\<lambda>i. snd (filter_step audioData i)) [0..<newLength audioData]"

subsection \<open>Base64: \<open>arrayBufferToBase64\<close> and \<open>base64ToUint8Array\<close>\<close>

text \<open>
  A binary string, as \<open>btoa\<close> and \<open>atob\<close> use it, has code units below 256 only and
  is a \<open>string\<close> with one \<open>char\<close> per code unit. A throw of the platform or of
  the language is a value of \<open>js_error\<close>.
\<close>

datatype js_error = InvalidCharacterError | NotSupportedError | InvalidStateError | TypeError | SyntaxError

text \<open>
  Modelled from the spec: \<open>window.btoa\<close> and \<open>window.atob\<close>, which belong to the
  browser and not to the repository; the specification names them the standard encode and
  decode. They are modelled by the standard base64 alphabet with \<open>=\<close> padding: \<open>btoa\<close>
  encodes three bytes as four characters and pads the last group, \<open>atob\<close> decodes
  forgivingly (it drops ASCII white space and accepts missing padding) and throws on any
  other character.
\<close>

definition b64_alphabet :: string where
  "b64_alphabet = ''ABCDEFGHIJKLMNOPQRSTUVWXYZabcdefghijklmnopqrstuvwxyz0123456789+/''"

definition b64_char :: "nat \<Rightarrow> char" where
  "b64_char n = b64_alphabet ! n"

fun index_of :: "char \<Rightarrow> string \<Rightarrow> nat option" where
  "index_of c [] = None"
| "index_of c (x # xs) = (if c = x then Some 0 else map_option Suc (index_of c xs))"

definition b64_value :: "char \<Rightarrow> nat option" where
  "b64_value c = index_of c b64_alphabet"

text \<open>The 6-bit groups of a byte string, the last group filled with zero bits.\<close>

fun sextets :: "string \<Rightarrow> nat list" where
  "sextets (a # b # c # rest) =
     (let x = of_char a; y = of_char b; z = of_char c :: nat
      in [x div 4, (x mod 4) * 16 + y div 16, (y mod 16) * 4 + z div 64, z mod 64] @ sextets rest)"
| "sextets [a, b] =
     (let x = of_char a; y = of_char b :: nat
      in [x div 4, (x mod 4) * 16 + y div 16, (y mod 16) * 4])"
| "sextets [a] = (let x = of_char a :: nat in [x div 4, (x mod 4) * 16])"
| "sextets [] = []"

definition btoa :: "string \<Rightarrow> string" where
  "btoa binary =
     map b64_char (sextets binary) @ replicate ((3 - length binary mod 3) mod 3) (CHR ''='')"

definition is_ascii_whitespace :: "char \<Rightarrow> bool" where
  "is_ascii_whitespace c = ((of_char c :: nat) \<in> set [9, 10, 12, 13, 32])"

definition strip_padding :: "string \<Rightarrow> string" where
  "strip_padding d =
     (if length d mod 4 = 0
      then (if 2 \<le> length d \<and> last d = CHR ''='' \<and> last (butlast d) = CHR ''=''
            then butlast (butlast d)
            else if d \<noteq> [] \<and> last d = CHR ''='' then butlast d
            else d)
      else d)"

text \<open>Bytes of a sequence of 6-bit groups; the bits left over at the end are dropped.\<close>

fun decode_sextets :: "nat list \<Rightarrow> nat list" where
  "decode_sextets (p # q # r # s # rest) =
     [p * 4 + q div 16, (q mod 16) * 16 + r div 4, (r mod 4) * 64 + s] @ decode_sextets rest"
| "decode_sextets [p, q, r] = [p * 4 + q div 16, (q mod 16) * 16 + r div 4]"
| "decode_sextets [p, q] = [p * 4 + q div 16]"
| "decode_sextets _ = []"

definition atob :: "string \<Rightarrow> js_error + string" where
  "atob input =
     (let d = strip_padding (filter (\<lambda>c. \<not> is_ascii_whitespace c) input)
      in if length d mod 4 = 1 then Inl InvalidCharacterError
         else if \<exists>c \<in> set d. b64_value c = None then Inl InvalidCharacterError
         else Inr (map char_of (decode_sextets (map (\<lambda>c. the (b64_value c)) d))))"

text \<open>
  \<open>arrayBufferToBase64\<close> appends \<open>String.fromCharCode(bytes[i])\<close> to \<open>binary\<close> for
  each index in turn; \<open>base64ToUint8Array\<close> stores \<open>charCodeAt(i)\<close> into \<open>bytes[i]\<close>.
\<close>

definition arrayBufferToBase64 :: "uint8 list \<Rightarrow> string" where
  "arrayBufferToBase64 bytes =
     btoa (foldl (\<lambda>binary i. binary @ [char_of (unat (bytes ! i))]) [] [0..<length bytes])"

definition base64ToUint8Array :: "string \<Rightarrow> js_error + uint8 list" where
  "base64ToUint8Array base64 =
     (case atob base64 of
        Inl e \<Rightarrow> Inl e
      | Inr binaryString \<Rightarrow>
          Inr (map (\<lambda>i. word_of_nat (of_char (binaryString ! i))) [0..<length binaryString]))"

text \<open>
  An \<open>Int16Array\<close> over the bytes of a buffer (little-endian, as on every platform the
  components run on; an odd last byte is outside the view), and the bytes of an
  \<open>Int16Array\<close>.
\<close>

fun int16_view :: "uint8 list \<Rightarrow> int16 list" where
  "int16_view (lo # hi # rest) = (word_cat hi lo :: int16) # int16_view rest"
| "int16_view _ = []"

definition uint8_view :: "int16 list \<Rightarrow> uint8 list" where
  "uint8_view samples = concat (map (\<lambda>v. [ucast v, ucast (drop_bit 8 v)]) samples)"

section \<open>Session state\<close>

text \<open>
  The components hold their state in refs and in React state. A ref to an object of the
  platform (socket, avatar client, microphone stream, audio context) is \<open>None\<close> for
  \<open>null\<close> and otherwise carries the state of the object it points to. Calls on the
  platform are recorded in \<open>effects\<close>, in the order they are made. Text (the
  transcript, the text of messages, what the user types) is a \<open>string\<close> holding the
  UTF-8 bytes of the JavaScript string.
\<close>

datatype role = User | Assistant

record turn =
  role :: role
  content :: string

datatype ready_state = CONNECTING | OPEN | CLOSING | CLOSED

datatype track_state = Live | Ended

datatype context_state = Suspended | Running | ContextClosed

type_synonym ice_server = "string list"

datatype ice_json = IceArray "ice_server list" | IceOther

record simli_client =
  session_token :: "string option"
  iceServers :: ice_json
  running :: bool

record function_call =
  fc_id :: string
  fc_name :: string
  fc_args :: "(string \<times> string) list option"

record function_response =
  fr_id :: string
  fr_name :: string
  fr_result :: "(string \<times> string) list"

datatype outbound =
    Setup
  | ClientContent string
  | RealtimeInput string
  | ToolResponse "function_response list"

datatype effect =
    WsSend outbound
  | SendAudioData "uint8 list"
  | SourceStart real "real list"
  | WsClose
  | SimliStop
  | TrackStop
  | ContextClose
  | PlaybackContextClose
  | FetchToken
  | FetchIce
  | SimliStart
  | ConnectGemini

record session =
  wsRef :: "ready_state option"
  simliClientRef :: "simli_client option"
  streamRef :: "track_state list option"
  audioContextRef :: "context_state option"
  playbackContextRef :: "context_state option"
  nextStartTimeRef :: real
  isInitializing :: bool
  isSimliReady :: bool
  error :: "string option"
  chatHistory :: "turn list"
  inputText :: string
  effects :: "effect list"

text \<open>The state of a freshly mounted component.\<close>

definition initial_session :: session where
  "initial_session =
     \<lparr>wsRef = None, simliClientRef = None, streamRef = None, audioContextRef = None,
      playbackContextRef = None, nextStartTimeRef = 0, isInitializing = False,
      isSimliReady = False, error = None, chatHistory = [], inputText = [], effects = []\<rparr>"

definition emit :: "effect \<Rightarrow> session \<Rightarrow> session" where
  "emit e s = s\<lparr>effects := effects s @ [e]\<rparr>"

section \<open>Playback scheduler: \<open>play24kAudio\<close>\<close>

definition LATENCY_COMPENSATION :: real where
  "LATENCY_COMPENSATION = 22 / 100"

text \<open>The duration of an audio buffer of that many samples at 24 kHz.\<close>

definition duration :: "int16 list \<Rightarrow> real" where
  "duration int16Data = real (length int16Data) / 24000"

text \<open>
  \<open>now\<close> is the reading of \<open>currentTime\<close> of the playback context during the call.
  \<open>createBuffer\<close> throws \<open>NotSupportedError\<close> for a buffer of no samples; the context
  created before the throw stays. On success the result is the start time given to
  \<open>source.start\<close>.
\<close>

definition play24kAudio :: "session \<Rightarrow> real \<Rightarrow> int16 list \<Rightarrow> session \<times> (js_error + real)" where
  "play24kAudio s now int16Data =
     (let s1 = (if playbackContextRef s = None
                then s\<lparr>playbackContextRef := Some Running,
                        nextStartTimeRef := now + LATENCY_COMPENSATION\<rparr>
                else s);
          float32 = map (\<lambda>i. pcm16ToFloat (int16Data ! i)) [0..<length int16Data]
      in if length float32 = 0 then (s1, Inl NotSupportedError)
         else (let startTime = max (now + LATENCY_COMPENSATION) (nextStartTimeRef s1)
               in ((emit (SourceStart startTime float32) s1)
                      \<lparr>nextStartTimeRef := startTime + duration int16Data\<rparr>,
                   Inr startTime)))"

text \<open>
  The frames of a stream, each with the clock reading at its arrival, played one after
  the other: the start time and the duration of every frame that was scheduled.
\<close>

fun schedule :: "session \<Rightarrow> (real \<times> int16 list) list \<Rightarrow> (real \<times> real) list" where
  "schedule s [] = []"
| "schedule s ((now, frame) # rest) =
     (case play24kAudio s now frame of
        (s', Inl e) \<Rightarrow> schedule s' rest
      | (s', Inr startTime) \<Rightarrow> (startTime, duration frame) # schedule s' rest)"

section \<open>Inbound messages\<close>

text \<open>
  A parsed inbound message, by the fields the handlers look at: \<open>error.message\<close> when
  the message has an \<open>error\<close>, \<open>toolCall.functionCalls\<close> when it has a \<open>toolCall\<close>,
  and \<open>serverContent.modelTurn.parts\<close>. The properties of the arguments of a function
  call are kept as the strings they print as.
\<close>

record inline_data =
  mimeType :: string
  data :: string

record part =
  part_text :: "string option"
  inlineData :: "inline_data option"

record response =
  error_message :: "string option"
  functionCalls :: "function_call list option"
  parts :: "part list option"

text \<open>
  The data of a socket event arrives as a \<open>Blob\<close>, an \<open>ArrayBuffer\<close> or a string; its
  text parses to a message or, for \<open>None\<close>, is not JSON.
\<close>

datatype event_data =
    Blob "response option"
  | ArrayBuffer "response option"
  | Text "response option"

definition startsWith :: "string \<Rightarrow> string \<Rightarrow> bool" where
  "startsWith str p = (take (length p) str = p)"

subsection \<open>Transcript: the updater of \<open>setChatHistory\<close> for a text part, and \<open>handleSendText\<close>\<close>

definition appendText :: "turn list \<Rightarrow> string \<Rightarrow> turn list" where
  "appendText prev newText =
     (if prev \<noteq> [] \<and> role (last prev) = Assistant
      then butlast prev @ [(last prev)\<lparr>content := content (last prev) @ newText\<rparr>]
      else prev @ [\<lparr>role = Assistant, content = newText\<rparr>])"








subsection \<open>The handler of \<open>SimliLiveGemini.tsx\<close>\<close>

text \<open>
  The parts of a model turn in order. A part with a non-empty \<open>text\<close> extends the
  transcript; a part with PCM audio is decoded, resampled and pushed to the avatar client.
  A throw (here: of \<open>atob\<close>) leaves the loop for the handler's \<open>catch\<close>, which logs it.
\<close>

fun process_parts :: "session \<Rightarrow> part list \<Rightarrow> session" where
  "process_parts s [] = s"
| "process_parts s (p # ps) =
     (let s1 = (case part_text p of
                  Some newText \<Rightarrow>
                    if newText \<noteq> [] then s\<lparr>chatHistory := appendText (chatHistory s) newText\<rparr> else s
                | None \<Rightarrow> s)
      in case inlineData p of
           None \<Rightarrow> process_parts s1 ps
         | Some d \<Rightarrow>
             if startsWith (mimeType d) ''audio/pcm''
             then (case base64ToUint8Array (data d) of
                     Inl e \<Rightarrow> s1
                   | Inr pcm24k \<Rightarrow>
                       (let int16Path_24k = int16_view pcm24k;
                            int16Path_16k = downsampleTo16k_linear int16Path_24k
                        in process_parts
                             (if simliClientRef s1 \<noteq> None
                              then emit (SendAudioData (uint8_view int16Path_16k)) s1 else s1)
                             ps))
             else process_parts s1 ps)"

definition payload :: "event_data \<Rightarrow> response option" where
  "payload ev = (case ev of Blob r \<Rightarrow> r | ArrayBuffer r \<Rightarrow> r | Text r \<Rightarrow> r)"

definition onmessage :: "session \<Rightarrow> event_data \<Rightarrow> session" where
  "onmessage s ev =
     (case payload ev of
        None \<Rightarrow> s
      | Some response \<Rightarrow>
          (case error_message response of
             Some m \<Rightarrow> s\<lparr>error := Some (''Gemini Error: '' @ m)\<rparr>
           | None \<Rightarrow>
               (case parts response of
                  Some ps \<Rightarrow> process_parts s ps
                | None \<Rightarrow> s)))"

subsection \<open>The handler of the dual-pipeline component, with the tool-call responder\<close>

text \<open>
  The text printed and put into the transcript for a concept; a property the arguments
  lack prints as \<open>undefined\<close>. The first four characters are the UTF-8 bytes of the
  disc emoji.
\<close>

definition property_of :: "(string \<times> string) list \<Rightarrow> string \<Rightarrow> string" where
  "property_of concept k = (case map_of concept k of Some v \<Rightarrow> v | None \<Rightarrow> ''undefined'')"

definition concept_text :: "(string \<times> string) list \<Rightarrow> string" where
  "concept_text concept =
     [char_of (240 :: nat), char_of (159 :: nat), char_of (147 :: nat), char_of (128 :: nat)]
     @ '' NEW CONCEPT:'' @ [char_of (10 :: nat)]
     @ property_of concept ''title'' @ '' ('' @ property_of concept ''genre'' @ '')'' @ [char_of (10 :: nat)]
     @ ''Description:'' @ [char_of (10 :: nat)] @ property_of concept ''description'' @ [char_of (10 :: nat)]
     @ ''Album art prompt:'' @ [char_of (10 :: nat)] @ property_of concept ''art_prompt''"

text \<open>
  The loop over \<open>functionCalls\<close>, with the transcript and \<open>functionResponses\<close> as they
  grow. Reading a property of arguments that are \<open>undefined\<close> throws \<open>TypeError\<close>.
\<close>

fun tool_loop ::
  "turn list \<Rightarrow> function_response list \<Rightarrow> function_call list
     \<Rightarrow> turn list \<times> (js_error + function_response list)" where
  "tool_loop history functionResponses [] = (history, Inr functionResponses)"
| "tool_loop history functionResponses (fc # fcs) =
     (if fc_name fc = ''print_album_concept''
      then (case fc_args fc of
              None \<Rightarrow> (history, Inl TypeError)
            | Some concept \<Rightarrow>
                tool_loop (history @ [\<lparr>role = Assistant, content = concept_text concept\<rparr>])
                  (functionResponses @ [\<lparr>fr_id = fc_id fc, fr_name = fc_name fc, fr_result = concept\<rparr>])
                  fcs)
      else tool_loop history functionResponses fcs)"

text \<open>
  \<open>wsRef.current?.send(...)\<close>: nothing without a socket; a socket still connecting
  throws, an open one sends, a closing or closed one drops the data.
\<close>

definition ws_send :: "outbound \<Rightarrow> session \<Rightarrow> js_error + session" where
  "ws_send m s =
     (case wsRef s of
        None \<Rightarrow> Inr s
      | Some CONNECTING \<Rightarrow> Inl InvalidStateError
      | Some OPEN \<Rightarrow> Inr (emit (WsSend m) s)
      | Some _ \<Rightarrow> Inr s)"

definition handle_toolCall :: "session \<Rightarrow> response \<Rightarrow> session \<times> js_error option" where
  "handle_toolCall s response =
     (case functionCalls response of
        None \<Rightarrow> (s, None)
      | Some fcs \<Rightarrow>
          (case tool_loop (chatHistory s) [] fcs of
             (history, Inl e) \<Rightarrow> (s\<lparr>chatHistory := history\<rparr>, Some e)
           | (history, Inr functionResponses) \<Rightarrow>
               (case ws_send (ToolResponse functionResponses) (s\<lparr>chatHistory := history\<rparr>) of
                  Inl e \<Rightarrow> (s\<lparr>chatHistory := history\<rparr>, Some e)
                | Inr s' \<Rightarrow> (s', None))))"

definition is_audio_part :: "part \<Rightarrow> bool" where
  "is_audio_part p =
     (case inlineData p of None \<Rightarrow> False | Some d \<Rightarrow> startsWith (mimeType d) ''audio/pcm'')"

definition DUAL_PIPELINE :: bool where
  "DUAL_PIPELINE = True"

definition handle_audio :: "session \<Rightarrow> real \<Rightarrow> response \<Rightarrow> session \<times> js_error option" where
  "handle_audio s now response =
     (case find is_audio_part (case parts response of None \<Rightarrow> [] | Some ps \<Rightarrow> ps) of
        None \<Rightarrow> (s, None)
      | Some audioPart \<Rightarrow>
          (case base64ToUint8Array (data (the (inlineData audioPart))) of
             Inl e \<Rightarrow> (s, Some e)
           | Inr pcm24kRaw \<Rightarrow>
               (let int16_24k = int16_view pcm24kRaw;
                    int16_16k = downsampleTo16k int16_24k;
                    s1 = (if simliClientRef s \<noteq> None
                          then emit (SendAudioData (uint8_view int16_16k)) s else s)
                in if DUAL_PIPELINE
                   then (case play24kAudio s1 now int16_24k of
                           (s2, Inl e) \<Rightarrow> (s2, Some e)
                         | (s2, Inr startTime) \<Rightarrow> (s2, None))
                   else (s1, None))))"

text \<open>
  This handler reads \<open>event.data.text()\<close>, which only a \<open>Blob\<close> has, and parses the
  text outside any \<open>try\<close>; a throw ends the handler with what was done before it.
\<close>

definition onmessage_dual :: "session \<Rightarrow> real \<Rightarrow> event_data \<Rightarrow> session \<times> js_error option" where
  "onmessage_dual s now ev =
     (case ev of
        Blob None \<Rightarrow> (s, Some SyntaxError)
      | Blob (Some response) \<Rightarrow>
          (case handle_toolCall s response of
             (s1, Some e) \<Rightarrow> (s1, Some e)
           | (s1, None) \<Rightarrow> handle_audio s1 now response)
      | _ \<Rightarrow> (s, Some TypeError))"

section \<open>Session start\<close>

text \<open>
  What a \<open>fetch\<close> resolves to: the \<open>ok\<close> flag, the status text, and the outcome of
  \<open>json()\<close> (\<open>Inl m\<close> when the body is not JSON and \<open>json()\<close> rejects with message
  \<open>m\<close>). A \<open>fetch\<close> that rejects with message \<open>m\<close> is \<open>Inl m\<close>.
\<close>

record 'a http_response =
  ok :: bool
  statusText :: string
  json :: "string + 'a"

type_synonym 'a fetched = "string + 'a http_response"

record token_body =
  body_error :: "string option"
  body_session_token :: "string option"

record ice_body =
  ice_error :: "string option"
  ice_value :: ice_json

definition fallback_ice :: ice_json where
  "fallback_ice = IceArray [[''stun:stun.l.google.com:19302'']]"

subsection \<open>\<open>initialize\<close> of the Gemini components\<close>

text \<open>
  The body of the \<open>try\<close>: either the message of the error thrown, or the state after
  \<open>connectToGemini\<close>. \<open>start\<close> is \<open>Some m\<close> when \<open>client.start()\<close> rejects with
  message \<open>m\<close>. The state at a throw keeps what was done before it.
\<close>

definition initialize_try ::
  "session \<Rightarrow> token_body fetched \<Rightarrow> ice_body fetched \<Rightarrow> string option \<Rightarrow> session \<times> string option" where
  "initialize_try s tokenFetch iceFetch start =
     (let s1 = emit FetchToken s
      in case tokenFetch of
           Inl m \<Rightarrow> (s1, Some m)
         | Inr tokenResp \<Rightarrow>
             if \<not> ok tokenResp then (s1, Some ''Failed to get Simli token'')
             else (case json tokenResp of
                     Inl m \<Rightarrow> (s1, Some m)
                   | Inr tokenData \<Rightarrow>
                       (let s2 = emit FetchIce s1
                        in case iceFetch of
                             Inl m \<Rightarrow> (s2, Some m)
                           | Inr iceResp \<Rightarrow>
                               (case (if ok iceResp then map_sum id ice_value (json iceResp)
                                      else Inr fallback_ice) of
                                  Inl m \<Rightarrow> (s2, Some m)
                                | Inr servers \<Rightarrow>
                                    (let client = \<lparr>session_token = body_session_token tokenData,
                                                   iceServers = servers, running = False\<rparr>;
                                         s3 = emit SimliStart (s2\<lparr>simliClientRef := Some client\<rparr>)
                                     in case start of
                                          Some m \<Rightarrow> (s3, Some m)
                                        | None \<Rightarrow>
                                            ((emit ConnectGemini
                                                (s3\<lparr>simliClientRef := Some (client\<lparr>running := True\<rparr>),
                                                    isSimliReady := True\<rparr>))
                                               \<lparr>wsRef := Some CONNECTING\<rparr>,
                                             None))))))"

text \<open>\<open>refs\<close> tells whether the video and audio elements are mounted.\<close>

definition initialize ::
  "session \<Rightarrow> bool \<Rightarrow> token_body fetched \<Rightarrow> ice_body fetched \<Rightarrow> string option \<Rightarrow> session" where
  "initialize s refs tokenFetch iceFetch start =
     (if isInitializing s \<or> \<not> refs then s
      else (case initialize_try (s\<lparr>isInitializing := True, error := Some []\<rparr>) tokenFetch iceFetch start of
              (s', Some m) \<Rightarrow> s'\<lparr>error := Some (''Init Error: '' @ m)\<rparr>
            | (s', None) \<Rightarrow> s'))"

subsection \<open>\<open>initSimli\<close> of the avatar component\<close>

fun is_prefix :: "string \<Rightarrow> string \<Rightarrow> bool" where
  "is_prefix [] ys = True"
| "is_prefix (x # xs) [] = False"
| "is_prefix (x # xs) (y # ys) = (x = y \<and> is_prefix xs ys)"

fun str_includes :: "string \<Rightarrow> string \<Rightarrow> bool" where
  "str_includes [] p = is_prefix p []"
| "str_includes (c # cs) p = (is_prefix p (c # cs) \<or> str_includes cs p)"

text \<open>The message thrown for a response that is not \<open>ok\<close>: \<open>errorData.error || ...\<close>.\<close>

definition failure_message :: "string option \<Rightarrow> string \<Rightarrow> string \<Rightarrow> string" where
  "failure_message err what status =
     (case err of
        Some m \<Rightarrow> if m \<noteq> [] then m else what @ '' fetch failed: '' @ status
      | None \<Rightarrow> what @ '' fetch failed: '' @ status)"

text \<open>
  Both requests are sent at once by \<open>Promise.all\<close>, which rejects when either does.
  \<open>isMounted\<close> is false once the component was unmounted.
\<close>

definition initSimli_try ::
  "session \<Rightarrow> bool \<Rightarrow> token_body fetched \<Rightarrow> ice_body fetched \<Rightarrow> string option \<Rightarrow> session \<times> string option" where
  "initSimli_try s isMounted sessionFetch iceFetch start =
     (let s1 = emit FetchIce (emit FetchToken s)
      in case sessionFetch of
           Inl m \<Rightarrow> (s1, Some m)
         | Inr sessionRes \<Rightarrow>
        (case iceFetch of
           Inl m \<Rightarrow> (s1, Some m)
         | Inr iceRes \<Rightarrow>
             if \<not> ok sessionRes
             then (s1, Some (failure_message
                     (case json sessionRes of Inl m \<Rightarrow> None | Inr b \<Rightarrow> body_error b)
                     ''Session'' (statusText sessionRes)))
             else if \<not> ok iceRes
             then (s1, Some (failure_message
                     (case json iceRes of Inl m \<Rightarrow> None | Inr b \<Rightarrow> ice_error b)
                     ''ICE'' (statusText iceRes)))
             else (case json sessionRes of
                     Inl m \<Rightarrow> (s1, Some m)
                   | Inr sessionData \<Rightarrow>
                (case json iceRes of
                     Inl m \<Rightarrow> (s1, Some m)
                   | Inr iceServersResponse \<Rightarrow>
                       if body_session_token sessionData = None \<or> body_session_token sessionData = Some []
                       then (s1, Some ''Invalid session data: missing session_token'')
                       else if \<not> isMounted then (s1, None)
                       else (let effectiveIceServers =
                                   (case ice_value iceServersResponse of
                                      IceArray servers \<Rightarrow>
                                        if length servers = 0 then fallback_ice else IceArray servers
                                    | IceOther \<Rightarrow> fallback_ice);
                                 client = \<lparr>session_token = body_session_token sessionData,
                                           iceServers = effectiveIceServers, running = False\<rparr>;
                                 s2 = emit SimliStart (s1\<lparr>simliClientRef := Some client\<rparr>)
                             in case start of
                                  Some m \<Rightarrow> (s2, Some m)
                                | None \<Rightarrow>
                                    (s2\<lparr>simliClientRef := Some (client\<lparr>running := True\<rparr>),
                                        isSimliReady := (if isMounted then True else isSimliReady s2)\<rparr>,
                                     None))))))"

definition initSimli ::
  "session \<Rightarrow> bool \<Rightarrow> bool \<Rightarrow> token_body fetched \<Rightarrow> ice_body fetched \<Rightarrow> string option \<Rightarrow> session" where
  "initSimli s refs isMounted sessionFetch iceFetch start =
     (if \<not> refs then s
      else (case initSimli_try s isMounted sessionFetch iceFetch start of
              (s', Some m) \<Rightarrow>
                if isMounted
                then (let errorMessage =
                            (if m = [] then ''Error''
                             else if str_includes m ''CONNECTION TIMED OUT''
                             then ''Connection timed out. Please check your network or firewall settings. (P2P)''
                             else m)
                      in s'\<lparr>error := Some (''Simli Init Error: '' @ errorMessage)\<rparr>)
                else s'
            | (s', None) \<Rightarrow> s'))"

section \<open>Teardown\<close>

text \<open>
  The cleanup of the dual-pipeline component, step by step: every release is guarded by
  its ref and clears it.
\<close>

definition reset_guard :: "session \<Rightarrow> session" where
  "reset_guard s = s\<lparr>isInitializing := False\<rparr>"

definition close_transport :: "session \<Rightarrow> session" where
  "close_transport s =
     (if wsRef s \<noteq> None then (emit WsClose s)\<lparr>wsRef := None\<rparr> else s)"

definition release_avatar :: "session \<Rightarrow> session" where
  "release_avatar s =
     (if simliClientRef s \<noteq> None then (emit SimliStop s)\<lparr>simliClientRef := None\<rparr> else s)"

definition stop_microphone :: "session \<Rightarrow> session" where
  "stop_microphone s =
     (case streamRef s of
        Some tracks \<Rightarrow> (s\<lparr>effects := effects s @ map (\<lambda>t. TrackStop) tracks\<rparr>)\<lparr>streamRef := None\<rparr>
      | None \<Rightarrow> s)"

definition close_capture_context :: "session \<Rightarrow> session" where
  "close_capture_context s =
     (if audioContextRef s \<noteq> None then (emit ContextClose s)\<lparr>audioContextRef := None\<rparr> else s)"

definition close_playback_context :: "session \<Rightarrow> session" where
  "close_playback_context s =
     (if playbackContextRef s \<noteq> None
      then (emit PlaybackContextClose s)\<lparr>playbackContextRef := None\<rparr> else s)"

definition cleanup :: "session \<Rightarrow> session" where
  "cleanup s =
     close_playback_context (close_capture_context (stop_microphone
       (release_avatar (close_transport (reset_guard s)))))"

text \<open>
  The session is closed when it holds no socket, avatar client, microphone stream or audio
  context and the initialisation guard is down.
\<close>

definition closed :: "session \<Rightarrow> bool" where
  "closed s =
     (wsRef s = None \<and> simliClientRef s = None \<and> streamRef s = None
      \<and> audioContextRef s = None \<and> playbackContextRef s = None \<and> \<not> isInitializing s)"



section \<open>Observations used by the properties\<close>



text \<open>The messages sent on the socket so far, in order.\<close>

fun sent_of :: "effect list \<Rightarrow> outbound list" where
  "sent_of [] = []"
| "sent_of (WsSend m # es) = m # sent_of es"
| "sent_of (e # es) = sent_of es"

definition sent :: "session \<Rightarrow> outbound list" where
  "sent s = sent_of (effects s)"

text \<open>The calls the responder has a handler for, and the result it builds for one.\<close>

definition handled :: "function_call \<Rightarrow> bool" where
  "handled fc = (fc_name fc = ''print_album_concept'')"

definition result_of :: "function_call \<Rightarrow> function_response" where
  "result_of fc =
     \<lparr>fr_id = fc_id fc, fr_name = fc_name fc,
      fr_result = (case fc_args fc of Some concept \<Rightarrow> concept | None \<Rightarrow> [])\<rparr>"

text \<open>A session in full use.\<close>

definition live_session :: session where
  "live_session =
     initial_session\<lparr>wsRef := Some OPEN,
       simliClientRef := Some \<lparr>session_token = Some ''tok'', iceServers = fallback_ice, running = True\<rparr>,
       streamRef := Some [Live], audioContextRef := Some Running,
       playbackContextRef := Some Running, isInitializing := True\<rparr>"



text \<open>Responses of the collaborators: a failure status, a token, and a list of servers.\<close>

definition bad_response :: "token_body http_response" where
  "bad_response = \<lparr>ok = False, statusText = ''Service Unavailable'', json = Inl ''Unexpected token''\<rparr>"

definition bad_ice_response :: "ice_body http_response" where
  "bad_ice_response = \<lparr>ok = False, statusText = ''Service Unavailable'', json = Inl ''Unexpected token''\<rparr>"

definition good_token_response :: "token_body http_response" where
  "good_token_response =
     \<lparr>ok = True, statusText = ''OK'', json = Inr \<lparr>body_error = None, body_session_token = Some ''tok''\<rparr>\<rparr>"


section \<open>Base64 is lossless\<close>

lemma b64_table:
  "list_all (\<lambda>n. b64_value (b64_char n) = Some n \<and> \<not> is_ascii_whitespace (b64_char n)
      \<and> b64_char n \<noteq> CHR ''='') [0..<64]"
  by code_simp

lemma b64_char_props:
  assumes "n < 64"
  shows "b64_value (b64_char n) = Some n" and "\<not> is_ascii_whitespace (b64_char n)"
    and "b64_char n \<noteq> CHR ''=''"
  using b64_table assms by (simp_all add: list_all_iff)

lemma sextet_arith:
  fixes x y z :: nat
  assumes "x < 256" "y < 256" "z < 256"
  shows "x div 4 < 64" "x mod 4 * 16 + y div 16 < 64" "y mod 16 * 4 + z div 64 < 64" "z mod 64 < 64"
    "x mod 4 * 16 < 64" "y mod 16 * 4 < 64"
proof -
  have a: "x mod 4 < 4" "y mod 16 < 16" by simp_all
  have b: "y div 16 < 16" "z div 64 < 4" "x div 4 < 64"
    using assms by (simp_all add: less_mult_imp_div_less)
  show "x div 4 < 64" by (rule b)
  show "x mod 4 * 16 + y div 16 < 64" using a b by linarith
  show "y mod 16 * 4 + z div 64 < 64" using a b by linarith
  show "z mod 64 < 64" by simp
  show "x mod 4 * 16 < 64" using a by linarith
  show "y mod 16 * 4 < 64" using a by linarith
qed

lemma regroup_arith:
  fixes x y z :: nat
  assumes "y < 256" "z < 256"
  shows "x div 4 * 4 + (x mod 4 * 16 + y div 16) div 16 = x"
    and "(x mod 4 * 16 + y div 16) mod 16 * 16 + (y mod 16 * 4 + z div 64) div 4 = y"
    and "(y mod 16 * 4 + z div 64) mod 4 * 64 + z mod 64 = z"
    and "(x mod 4 * 16 + y div 16) mod 16 * 16 + (y mod 16 * 4) div 4 = y"
    and "x div 4 * 4 + (x mod 4 * 16) div 16 = x"
proof -
  have zb: "z div 64 < 4" and yb: "y div 16 < 16"
    using assms by (simp_all add: less_mult_imp_div_less)
  have p1: "(a * 16 + b) div 16 = a" "(a * 16 + b) mod 16 = b" if "b < 16" for a b :: nat
    using that by simp_all
  have p2: "(a * 4 + b) div 4 = a" "(a * 4 + b) mod 4 = b" if "b < 4" for a b :: nat
    using that by simp_all
  show "x div 4 * 4 + (x mod 4 * 16) div 16 = x" by simp
  show "(y mod 16 * 4 + z div 64) mod 4 * 64 + z mod 64 = z" using p2[OF zb] by simp
  show "x div 4 * 4 + (x mod 4 * 16 + y div 16) div 16 = x" using p1[OF yb] by simp
  show "(x mod 4 * 16 + y div 16) mod 16 * 16 + (y mod 16 * 4 + z div 64) div 4 = y"
    using p1[OF yb] p2[OF zb] by simp
  show "(x mod 4 * 16 + y div 16) mod 16 * 16 + (y mod 16 * 4) div 4 = y"
    using p1[OF yb] by simp
qed

lemma sextets_bound: "n \<in> set (sextets s) \<Longrightarrow> n < 64"
proof (induction s arbitrary: n rule: sextets.induct)
  case (1 a b c rest)
  note ar = sextet_arith[OF nat_of_char_less_256[of a] nat_of_char_less_256[of b] nat_of_char_less_256[of c]]
  from "1.prems" have "n \<in> {of_char a div 4, of_char a mod 4 * 16 + of_char b div 16,
      of_char b mod 16 * 4 + of_char c div 64, of_char c mod 64} \<or> n \<in> set (sextets rest)"
    by (auto simp: Let_def)
  then show ?case using ar "1.IH" by blast
next
  case (2 a b)
  note ar = sextet_arith[OF nat_of_char_less_256[of a] nat_of_char_less_256[of b] nat_of_char_less_256[of b]]
  from "2.prems" have "n \<in> {of_char a div 4, of_char a mod 4 * 16 + of_char b div 16,
      of_char b mod 16 * 4}"
    by (auto simp: Let_def)
  then show ?case using ar by blast
next
  case (3 a)
  note ar = sextet_arith[OF nat_of_char_less_256[of a] nat_of_char_less_256[of a] nat_of_char_less_256[of a]]
  from "3.prems" have "n \<in> {of_char a div 4, of_char a mod 4 * 16}"
    by (auto simp: Let_def)
  then show ?case using ar by blast
next
  case 4
  then show ?case by simp
qed

lemma length_sextets: "length (sextets s) + (3 - length s mod 3) mod 3 = 4 * ((length s + 2) div 3)"
proof (induction s rule: sextets.induct)
  case (1 a b c rest)
  have "(3 - (3 + n) mod 3) mod 3 = (3 - n mod 3) mod 3" for n :: nat by simp
  moreover have "(3 + n + 2) div 3 = Suc ((n + 2) div 3)" for n :: nat by simp
  ultimately show ?case using 1 by (simp add: Let_def)
qed (simp_all add: Let_def)

lemma length_sextets_mod: "length (sextets s) mod 4 \<noteq> 1"
  by (induction s rule: sextets.induct) (simp_all add: Let_def)

lemma decode_group:
  fixes x y z :: nat
  assumes "y < 256" "z < 256"
  shows "decode_sextets (x div 4 # (x mod 4 * 16 + y div 16) # (y mod 16 * 4 + z div 64) # z mod 64 # rest)
           = x # y # z # decode_sextets rest"
    and "decode_sextets [x div 4, x mod 4 * 16 + y div 16, y mod 16 * 4] = [x, y]"
    and "decode_sextets [x div 4, x mod 4 * 16] = [x]"
  using regroup_arith[OF assms]
  by (simp_all only: decode_sextets.simps append_Cons append_Nil)

lemma decode_sextets_sextets: "map char_of (decode_sextets (sextets s)) = s"
proof (induction s rule: sextets.induct)
  case (1 a b c rest)
  have IH: "map char_of (decode_sextets (sextets rest)) = rest"
    using 1 by simp
  have "sextets (a # b # c # rest) =
      of_char a div 4 # (of_char a mod 4 * 16 + of_char b div 16)
        # (of_char b mod 16 * 4 + of_char c div 64) # of_char c mod 64 # sextets rest"
    by (simp add: Let_def)
  then have "decode_sextets (sextets (a # b # c # rest)) =
      of_char a # of_char b # of_char c # decode_sextets (sextets rest)"
    using decode_group(1)[OF nat_of_char_less_256 nat_of_char_less_256] by (simp only:)
  then show ?case using IH by simp
next
  case (2 a b)
  have "sextets [a, b] = [of_char a div 4, of_char a mod 4 * 16 + of_char b div 16, of_char b mod 16 * 4]"
    by (simp add: Let_def)
  then have "decode_sextets (sextets [a, b]) = [of_char a, of_char b]"
    using decode_group(2)[OF nat_of_char_less_256 nat_of_char_less_256] by (simp only:)
  then show ?case by simp
next
  case (3 a)
  have "sextets [a] = [of_char a div 4, of_char a mod 4 * 16]"
    by (simp add: Let_def)
  then have "decode_sextets (sextets [a]) = [of_char a]"
    using decode_group(3)[OF nat_of_char_less_256 nat_of_char_less_256] by (simp only:)
  then show ?case by simp
next
  case 4
  show ?case by simp
qed

lemma strip_padding_btoa: "strip_padding (btoa s) = map b64_char (sextets s)"
proof -
  let ?body = "map b64_char (sextets s)"
  let ?k = "(3 - length s mod 3) mod 3"
  have nopad: "c \<in> set ?body \<Longrightarrow> c \<noteq> CHR ''=''" for c
    using sextets_bound[of _ s] b64_char_props(3) by (metis (no_types, lifting) imageE list.set_map)
  have len: "length (btoa s) mod 4 = 0"
    using length_sextets[of s] by (simp add: btoa_def)
  have k: "?k = 0 \<or> ?k = 1 \<or> ?k = 2" by linarith
  have lastbody: "?body \<noteq> [] \<Longrightarrow> last ?body \<noteq> CHR ''=''"
    using nopad last_in_set by blast
  from k show ?thesis
  proof (elim disjE)
    assume k0: "?k = 0"
    then have b: "btoa s = ?body" by (simp add: btoa_def)
    show ?thesis
    proof (cases "?body = []")
      case True
      then show ?thesis using b by (simp add: strip_padding_def)
    next
      case False
      then have "last ?body \<noteq> CHR ''=''" using lastbody by simp
      then show ?thesis unfolding b strip_padding_def by simp
    qed
  next
    assume k1: "?k = 1"
    then have b: "btoa s = ?body @ [CHR ''='']" by (simp add: btoa_def)
    have "length ?body + 1 = 4 * ((length s + 2) div 3)" using length_sextets[of s] k1 by simp
    then have ne: "?body \<noteq> []" by auto
    then have "last ?body \<noteq> CHR ''=''" using lastbody by simp
    then show ?thesis using len ne unfolding b strip_padding_def by (simp add: butlast_append)
  next
    assume k2: "?k = 2"
    then have b: "btoa s = ?body @ [CHR ''='', CHR ''='']" by (simp add: btoa_def numeral_2_eq_2)
    show ?thesis using len unfolding b strip_padding_def by (simp add: butlast_append)
  qed
qed

lemma filter_ws_btoa: "filter (\<lambda>c. \<not> is_ascii_whitespace c) (btoa s) = btoa s"
proof -
  have "\<not> is_ascii_whitespace (CHR ''='')" by (simp add: is_ascii_whitespace_def)
  moreover have "c \<in> set (map b64_char (sextets s)) \<Longrightarrow> \<not> is_ascii_whitespace c" for c
    using sextets_bound[of _ s] b64_char_props(2) by (metis (no_types, lifting) imageE list.set_map)
  ultimately show ?thesis unfolding btoa_def filter_id_conv by auto
qed

lemma atob_btoa: "atob (btoa s) = Inr s"
proof -
  have v: "c \<in> set (map b64_char (sextets s)) \<Longrightarrow> b64_value c \<noteq> None" for c
    using sextets_bound[of _ s] b64_char_props(1) by (metis (no_types, lifting) imageE list.set_map option.distinct(1))
  have m: "map (\<lambda>c. the (b64_value c)) (map b64_char (sextets s)) = sextets s"
    using sextets_bound[of _ s] b64_char_props(1) by (simp add: map_idI)
  have l: "length (map b64_char (sextets s)) mod 4 \<noteq> 1"
    using length_sextets_mod[of s] by simp
  show ?thesis
    unfolding atob_def filter_ws_btoa strip_padding_btoa Let_def m decode_sextets_sextets
    using v l by auto
qed

lemma binary_loop: "foldl (\<lambda>binary i. binary @ [f i]) acc [0..<n] = acc @ map f [0..<n]"
  by (induction n arbitrary: acc) simp_all

text \<open>
  C9: for every byte buffer, whatever its bytes, decoding the string produced by
  \<open>arrayBufferToBase64\<close> with \<open>base64ToUint8Array\<close> does not throw and yields exactly
  the original bytes.
\<close>

theorem base64_round_trip: "base64ToUint8Array (arrayBufferToBase64 bytes) = Inr bytes"
proof -
  have "unat b < 256" for b :: uint8
    using unsigned_less[of b, where ?'a = nat] by simp
  then have "map (\<lambda>i. (word_of_nat (of_char (map (\<lambda>i. char_of (unat (bytes ! i))) [0..<length bytes] ! i)) :: uint8))
      [0..<length bytes] = bytes"
    by (intro nth_equalityI) simp_all
  then show ?thesis
    unfolding base64ToUint8Array_def arrayBufferToBase64_def binary_loop atob_btoa
    by simp
qed

theorem base64_round_trip_witness:
  "base64ToUint8Array (arrayBufferToBase64 [0, 255, 128, 7, 200]) = Inr [0, 255, 128, 7, 200]"
  by (rule base64_round_trip)

section \<open>Transcript\<close>








section \<open>Tool calls and the error field\<close>

lemma sent_of_append: "sent_of (xs @ ys) = sent_of xs @ sent_of ys"
  by (induction xs rule: sent_of.induct) simp_all

lemma sent_emit:
  "sent (emit e s) = sent s @ sent_of [e]"
  by (simp add: sent_def emit_def sent_of_append)

lemma sent_play24kAudio: "sent (fst (play24kAudio s now frame)) = sent s"
  by (simp add: play24kAudio_def Let_def sent_def emit_def sent_of_append)

lemma sent_handle_audio: "sent (fst (handle_audio s now r)) = sent s"
proof -
  have "sent (fst (case play24kAudio s' now frame of (s2, Inl e) \<Rightarrow> (s2, Some e)
                     | (s2, Inr startTime) \<Rightarrow> (s2, None))) = sent s'" for s' frame
    using sent_play24kAudio[of s' now frame]
    by (cases "play24kAudio s' now frame") (auto split: sum.splits)
  then show ?thesis
    by (simp add: handle_audio_def Let_def sent_emit DUAL_PIPELINE_def split: option.splits sum.splits)
qed

lemma tool_loop_handled:
  assumes "\<forall>fc \<in> set fcs. handled fc \<longrightarrow> fc_args fc \<noteq> None"
  shows "tool_loop h acc fcs =
           (h @ map (\<lambda>fc. \<lparr>role = Assistant, content = concept_text (the (fc_args fc))\<rparr>) (filter handled fcs),
            Inr (acc @ map result_of (filter handled fcs)))"
  using assms
proof (induction fcs arbitrary: h acc)
  case Nil
  show ?case by simp
next
  case (Cons fc fcs)
  then show ?case
    by (cases "fc_args fc") (auto simp: handled_def result_of_def)
qed

text \<open>
  C2 (as amended): for an inbound tool-call message whose calls to \<open>print_album_concept\<close>
  carry arguments, received while the socket is open, the handler sends exactly one
  message, a tool response bundling one result for each call named
  \<open>print_album_concept\<close>, in the order of the calls and each with the id of its call; a
  call of any other name gets no result. When every call of the message has that name,
  the response holds as many results as there are calls, with the ids of the calls.
\<close>

theorem toolCall_acknowledged:
  "functionCalls r = Some fcs \<and> wsRef s = Some OPEN
     \<and> (\<forall>fc \<in> set fcs. handled fc \<longrightarrow> fc_args fc \<noteq> None) \<longrightarrow>
   sent (fst (onmessage_dual s now (Blob (Some r))))
       = sent s @ [ToolResponse (map result_of (filter handled fcs))]
   \<and> map fr_id (map result_of (filter handled fcs)) = map fc_id (filter handled fcs)
   \<and> ((\<forall>fc \<in> set fcs. handled fc) \<longrightarrow>
        length (map result_of (filter handled fcs)) = length fcs
        \<and> map fr_id (map result_of (filter handled fcs)) = map fc_id fcs)"
proof (intro impI, elim conjE)
  assume r: "functionCalls r = Some fcs" and o: "wsRef s = Some OPEN"
    and a: "\<forall>fc \<in> set fcs. handled fc \<longrightarrow> fc_args fc \<noteq> None"
  have t: "handle_toolCall s r =
      (emit (WsSend (ToolResponse (map result_of (filter handled fcs))))
         (s\<lparr>chatHistory := chatHistory s
              @ map (\<lambda>fc. \<lparr>role = Assistant, content = concept_text (the (fc_args fc))\<rparr>) (filter handled fcs)\<rparr>),
       None)"
    using r o by (simp add: handle_toolCall_def tool_loop_handled[OF a] ws_send_def)
  have "sent (fst (onmessage_dual s now (Blob (Some r))))
       = sent s @ [ToolResponse (map result_of (filter handled fcs))]"
    by (simp add: onmessage_dual_def t sent_handle_audio sent_emit) (simp add: sent_def)
  moreover have "map fr_id (map result_of (filter handled fcs)) = map fc_id (filter handled fcs)"
    by (simp add: result_of_def)
  moreover have "length (map result_of (filter handled fcs)) = length fcs
        \<and> map fr_id (map result_of (filter handled fcs)) = map fc_id fcs"
    if "\<forall>fc \<in> set fcs. handled fc"
    using that by (simp add: result_of_def)
  ultimately show "sent (fst (onmessage_dual s now (Blob (Some r))))
       = sent s @ [ToolResponse (map result_of (filter handled fcs))]
   \<and> map fr_id (map result_of (filter handled fcs)) = map fc_id (filter handled fcs)
   \<and> ((\<forall>fc \<in> set fcs. handled fc) \<longrightarrow>
        length (map result_of (filter handled fcs)) = length fcs
        \<and> map fr_id (map result_of (filter handled fcs)) = map fc_id fcs)"
    by blast
qed

theorem toolCall_acknowledged_witness:
  "sent (fst (onmessage_dual (initial_session\<lparr>wsRef := Some OPEN\<rparr>) 0
     (Blob (Some \<lparr>error_message = None,
        functionCalls = Some
          [\<lparr>fc_id = ''a'', fc_name = ''print_album_concept'', fc_args = Some [(''title'', ''One'')]\<rparr>,
           \<lparr>fc_id = ''b'', fc_name = ''print_album_concept'', fc_args = Some [(''title'', ''Two'')]\<rparr>],
        parts = None\<rparr>))))
   = [ToolResponse
        [\<lparr>fr_id = ''a'', fr_name = ''print_album_concept'', fr_result = [(''title'', ''One'')]\<rparr>,
         \<lparr>fr_id = ''b'', fr_name = ''print_album_concept'', fr_result = [(''title'', ''Two'')]\<rparr>]]"
  using toolCall_acknowledged[of
      "\<lparr>error_message = None,
        functionCalls = Some
          [\<lparr>fc_id = ''a'', fc_name = ''print_album_concept'', fc_args = Some [(''title'', ''One'')]\<rparr>,
           \<lparr>fc_id = ''b'', fc_name = ''print_album_concept'', fc_args = Some [(''title'', ''Two'')]\<rparr>],
        parts = None\<rparr>"
      "[\<lparr>fc_id = ''a'', fc_name = ''print_album_concept'', fc_args = Some [(''title'', ''One'')]\<rparr>,
        \<lparr>fc_id = ''b'', fc_name = ''print_album_concept'', fc_args = Some [(''title'', ''Two'')]\<rparr>]"
      "initial_session\<lparr>wsRef := Some OPEN\<rparr>" 0]
  by (simp add: handled_def result_of_def sent_def initial_session_def)

text \<open>
  A message with one call, of a name other than \<open>print_album_concept\<close>: the response that
  is sent holds no result, so the call is dropped.
\<close>

theorem toolCall_other_name_dropped:
  "sent (fst (onmessage_dual (initial_session\<lparr>wsRef := Some OPEN\<rparr>) 0
     (Blob (Some \<lparr>error_message = None,
        functionCalls = Some [\<lparr>fc_id = ''call-1'', fc_name = ''get_weather'', fc_args = Some []\<rparr>],
        parts = None\<rparr>))))
   = [ToolResponse []]"
  by (simp add: onmessage_dual_def handle_toolCall_def ws_send_def handle_audio_def
      sent_def emit_def initial_session_def)

lemma onmessage_dual_ignores_error:
  "onmessage_dual s now (Blob (Some r)) = onmessage_dual s now (Blob (Some (r\<lparr>error_message := e\<rparr>)))"
  by (simp add: onmessage_dual_def handle_toolCall_def handle_audio_def)

lemma onmessage_error_first:
  assumes "payload ev = Some r" and "error_message r = Some m"
  shows "onmessage s ev = s\<lparr>error := Some (''Gemini Error: '' @ m)\<rparr>"
  using assms by (simp add: onmessage_def)

text \<open>
  C7: the handler of the dual-pipeline component at a message that carries both an
  \<open>error\<close> and a tool call: the error is not surfaced (the error state stays empty), the
  call is routed to the responder, the transcript gets a turn and an acknowledgement is
  sent.
\<close>

theorem onmessage_dual_error_not_surfaced:
  "error (fst (onmessage_dual (initial_session\<lparr>wsRef := Some OPEN\<rparr>) 0
     (Blob (Some \<lparr>error_message = Some ''quota exceeded'',
        functionCalls = Some [\<lparr>fc_id = ''call-1'', fc_name = ''print_album_concept'', fc_args = Some []\<rparr>],
        parts = None\<rparr>)))) = None
   \<and> length (chatHistory (fst (onmessage_dual (initial_session\<lparr>wsRef := Some OPEN\<rparr>) 0
     (Blob (Some \<lparr>error_message = Some ''quota exceeded'',
        functionCalls = Some [\<lparr>fc_id = ''call-1'', fc_name = ''print_album_concept'', fc_args = Some []\<rparr>],
        parts = None\<rparr>))))) = 1
   \<and> sent (fst (onmessage_dual (initial_session\<lparr>wsRef := Some OPEN\<rparr>) 0
     (Blob (Some \<lparr>error_message = Some ''quota exceeded'',
        functionCalls = Some [\<lparr>fc_id = ''call-1'', fc_name = ''print_album_concept'', fc_args = Some []\<rparr>],
        parts = None\<rparr>))))
     = [ToolResponse [\<lparr>fr_id = ''call-1'', fr_name = ''print_album_concept'', fr_result = []\<rparr>]]
   \<and> onmessage_dual initial_session 0
        (Blob (Some \<lparr>error_message = Some ''quota exceeded'', functionCalls = None, parts = None\<rparr>))
     = (initial_session, None)"
  by (simp add: onmessage_dual_def handle_toolCall_def ws_send_def handle_audio_def
      sent_def emit_def initial_session_def)

section \<open>Teardown is idempotent\<close>

lemma reset_guard_fields:
  "wsRef (reset_guard s) = wsRef s" "simliClientRef (reset_guard s) = simliClientRef s"
  "streamRef (reset_guard s) = streamRef s" "audioContextRef (reset_guard s) = audioContextRef s"
  "playbackContextRef (reset_guard s) = playbackContextRef s" "isInitializing (reset_guard s) = False"
  by (simp_all add: reset_guard_def)

lemma close_transport_fields:
  "wsRef (close_transport s) = None" "simliClientRef (close_transport s) = simliClientRef s"
  "streamRef (close_transport s) = streamRef s" "audioContextRef (close_transport s) = audioContextRef s"
  "playbackContextRef (close_transport s) = playbackContextRef s"
  "isInitializing (close_transport s) = isInitializing s"
  by (simp_all add: close_transport_def emit_def)

lemma release_avatar_fields:
  "wsRef (release_avatar s) = wsRef s" "simliClientRef (release_avatar s) = None"
  "streamRef (release_avatar s) = streamRef s" "audioContextRef (release_avatar s) = audioContextRef s"
  "playbackContextRef (release_avatar s) = playbackContextRef s"
  "isInitializing (release_avatar s) = isInitializing s"
  by (simp_all add: release_avatar_def emit_def)

lemma stop_microphone_fields:
  "wsRef (stop_microphone s) = wsRef s" "simliClientRef (stop_microphone s) = simliClientRef s"
  "streamRef (stop_microphone s) = None" "audioContextRef (stop_microphone s) = audioContextRef s"
  "playbackContextRef (stop_microphone s) = playbackContextRef s"
  "isInitializing (stop_microphone s) = isInitializing s"
  by (simp_all add: stop_microphone_def split: option.splits)

lemma close_capture_context_fields:
  "wsRef (close_capture_context s) = wsRef s"
  "simliClientRef (close_capture_context s) = simliClientRef s"
  "streamRef (close_capture_context s) = streamRef s" "audioContextRef (close_capture_context s) = None"
  "playbackContextRef (close_capture_context s) = playbackContextRef s"
  "isInitializing (close_capture_context s) = isInitializing s"
  by (simp_all add: close_capture_context_def emit_def)

lemma close_playback_context_fields:
  "wsRef (close_playback_context s) = wsRef s"
  "simliClientRef (close_playback_context s) = simliClientRef s"
  "streamRef (close_playback_context s) = streamRef s"
  "audioContextRef (close_playback_context s) = audioContextRef s"
  "playbackContextRef (close_playback_context s) = None"
  "isInitializing (close_playback_context s) = isInitializing s"
  by (simp_all add: close_playback_context_def emit_def)

lemma closed_cleanup: "closed (cleanup s)"
  by (simp add: closed_def cleanup_def reset_guard_fields close_transport_fields
      release_avatar_fields stop_microphone_fields close_capture_context_fields
      close_playback_context_fields)

lemma cleanup_closed: "closed s \<Longrightarrow> cleanup s = s"
  by (simp add: closed_def cleanup_def reset_guard_def close_transport_def release_avatar_def
      stop_microphone_def close_capture_context_def close_playback_context_def)


text \<open>
  The teardown of the dual-pipeline component leaves the session closed, and running it
  again changes nothing and calls nothing (the record of platform calls is the same);
  each of its steps is idempotent on its own.
\<close>

lemma cleanup_idempotent:
  "closed (cleanup s)
   \<and> cleanup (cleanup s) = cleanup s
   \<and> reset_guard (reset_guard s) = reset_guard s
   \<and> close_transport (close_transport s) = close_transport s
   \<and> release_avatar (release_avatar s) = release_avatar s
   \<and> stop_microphone (stop_microphone s) = stop_microphone s
   \<and> close_capture_context (close_capture_context s) = close_capture_context s
   \<and> close_playback_context (close_playback_context s) = close_playback_context s"
proof (intro conjI)
  show "closed (cleanup s)" by (rule closed_cleanup)
  show "cleanup (cleanup s) = cleanup s" by (rule cleanup_closed[OF closed_cleanup])
  show "reset_guard (reset_guard s) = reset_guard s" by (simp add: reset_guard_def)
  show "close_transport (close_transport s) = close_transport s"
    by (simp add: close_transport_def emit_def)
  show "release_avatar (release_avatar s) = release_avatar s"
    by (simp add: release_avatar_def emit_def)
  show "stop_microphone (stop_microphone s) = stop_microphone s"
    by (simp add: stop_microphone_def split: option.splits)
  show "close_capture_context (close_capture_context s) = close_capture_context s"
    by (simp add: close_capture_context_def emit_def)
  show "close_playback_context (close_playback_context s) = close_playback_context s"
    by (simp add: close_playback_context_def emit_def)
qed

lemma cleanup_live_session:
  "effects (cleanup live_session) = [WsClose, SimliStop, TrackStop, ContextClose, PlaybackContextClose]
   \<and> effects (cleanup (cleanup live_session))
       = [WsClose, SimliStop, TrackStop, ContextClose, PlaybackContextClose]"
proof -
  have "effects (cleanup live_session) = [WsClose, SimliStop, TrackStop, ContextClose, PlaybackContextClose]"
    by (simp add: live_session_def initial_session_def cleanup_def reset_guard_def close_transport_def
        release_avatar_def stop_microphone_def close_capture_context_def close_playback_context_def emit_def)
  then show ?thesis using cleanup_idempotent[of live_session] by simp
qed




section \<open>Failures at session start\<close>

lemma failure_message_nonempty: "failure_message err what status \<noteq> []"
  by (simp add: failure_message_def split: option.splits)

lemma initSimli_try_not_ok:
  assumes "sessionFetch = Inr sres" and "iceFetch = Inr ires" and "\<not> ok sres \<or> \<not> ok ires"
  shows "\<exists>m. m \<noteq> [] \<and> initSimli_try s isMounted sessionFetch iceFetch start
            = (s\<lparr>effects := effects s @ [FetchToken, FetchIce]\<rparr>, Some m)"
proof (cases "ok sres")
  case False
  then show ?thesis using assms(1,2)
    by (simp add: initSimli_try_def emit_def failure_message_nonempty)
next
  case True
  then have "\<not> ok ires" using assms(3) by simp
  then show ?thesis using assms(1,2) True
    by (simp add: initSimli_try_def emit_def failure_message_nonempty)
qed

text \<open>
  C6 (as amended): a token response that is not \<open>ok\<close> aborts \<open>initialize\<close> after that
  one request: the error shown is \<open>Init Error: Failed to get Simli token\<close>, the ICE
  request, the avatar client and the Gemini connection are never made, and nothing is
  retried. An ICE response that is not \<open>ok\<close> does not abort \<open>initialize\<close>: the avatar
  client is built with the fallback STUN server and the start goes on. In \<open>initSimli\<close>
  (component mounted) a session or ICE response that is not \<open>ok\<close> aborts the start with
  a non-empty message shown after \<open>Simli Init Error: \<close>, each request having been sent
  once and no client built.
\<close>

theorem session_start_failures:
  "(\<not> isInitializing s \<and> refs \<and> tokenFetch = Inr tresp \<and> \<not> ok tresp \<longrightarrow>
      initialize s refs tokenFetch iceFetch start
        = s\<lparr>isInitializing := True, error := Some ''Init Error: Failed to get Simli token'',
            effects := effects s @ [FetchToken]\<rparr>)
   \<and> (\<not> isInitializing s \<and> refs \<and> tokenFetch = Inr tresp \<and> ok tresp \<and> json tresp = Inr tbody
        \<and> iceFetch = Inr iresp \<and> \<not> ok iresp \<and> start = None \<longrightarrow>
      initialize s refs tokenFetch iceFetch start
        = s\<lparr>isInitializing := True, error := Some [],
            simliClientRef := Some \<lparr>session_token = body_session_token tbody,
                                    iceServers = fallback_ice, running = True\<rparr>,
            isSimliReady := True,
            effects := effects s @ [FetchToken, FetchIce, SimliStart, ConnectGemini],
            wsRef := Some CONNECTING\<rparr>)
   \<and> (refs \<and> isMounted \<and> sessionFetch = Inr sres \<and> iceFetch = Inr ires
        \<and> (\<not> ok sres \<or> \<not> ok ires) \<longrightarrow>
      (\<exists>m. m \<noteq> [] \<and> initSimli s refs isMounted sessionFetch iceFetch start
              = s\<lparr>effects := effects s @ [FetchToken, FetchIce],
                  error := Some (''Simli Init Error: '' @ m)\<rparr>))"
proof (intro conjI impI)
  assume "\<not> isInitializing s \<and> refs \<and> tokenFetch = Inr tresp \<and> \<not> ok tresp"
  then show "initialize s refs tokenFetch iceFetch start
        = s\<lparr>isInitializing := True, error := Some ''Init Error: Failed to get Simli token'',
            effects := effects s @ [FetchToken]\<rparr>"
    by (simp add: initialize_def initialize_try_def emit_def)
next
  assume "\<not> isInitializing s \<and> refs \<and> tokenFetch = Inr tresp \<and> ok tresp \<and> json tresp = Inr tbody
        \<and> iceFetch = Inr iresp \<and> \<not> ok iresp \<and> start = None"
  then show "initialize s refs tokenFetch iceFetch start
        = s\<lparr>isInitializing := True, error := Some [],
            simliClientRef := Some \<lparr>session_token = body_session_token tbody,
                                    iceServers = fallback_ice, running = True\<rparr>,
            isSimliReady := True,
            effects := effects s @ [FetchToken, FetchIce, SimliStart, ConnectGemini],
            wsRef := Some CONNECTING\<rparr>"
    by (simp add: initialize_def initialize_try_def emit_def)
next
  assume a: "refs \<and> isMounted \<and> sessionFetch = Inr sres \<and> iceFetch = Inr ires
        \<and> (\<not> ok sres \<or> \<not> ok ires)"
  then obtain m where m: "m \<noteq> []"
    "initSimli_try s isMounted sessionFetch iceFetch start
            = (s\<lparr>effects := effects s @ [FetchToken, FetchIce]\<rparr>, Some m)"
    using initSimli_try_not_ok[of sessionFetch sres iceFetch ires s isMounted start] by blast
  define m' where "m' = (if str_includes m ''CONNECTION TIMED OUT''
      then ''Connection timed out. Please check your network or firewall settings. (P2P)'' else m)"
  have "m' \<noteq> []" using m(1) by (simp add: m'_def)
  moreover have "initSimli s refs isMounted sessionFetch iceFetch start
              = s\<lparr>effects := effects s @ [FetchToken, FetchIce],
                  error := Some (''Simli Init Error: '' @ m')\<rparr>"
    using a m by (simp add: initSimli_def m'_def)
  ultimately show "\<exists>m. m \<noteq> [] \<and> initSimli s refs isMounted sessionFetch iceFetch start
              = s\<lparr>effects := effects s @ [FetchToken, FetchIce],
                  error := Some (''Simli Init Error: '' @ m)\<rparr>"
    by blast
qed

theorem session_start_failures_witness:
  "initialize initial_session True (Inr bad_response) (Inr bad_ice_response) None
     = initial_session\<lparr>isInitializing := True, error := Some ''Init Error: Failed to get Simli token'',
         effects := [FetchToken]\<rparr>
   \<and> simliClientRef (initialize initial_session True (Inr good_token_response) (Inr bad_ice_response) None)
     = Some \<lparr>session_token = Some ''tok'', iceServers = fallback_ice, running = True\<rparr>
   \<and> (\<exists>m. m \<noteq> [] \<and> initSimli initial_session True True (Inr bad_response) (Inr bad_ice_response) None
              = initial_session\<lparr>effects := [FetchToken, FetchIce],
                  error := Some (''Simli Init Error: '' @ m)\<rparr>)"
proof -
  have i: "\<not> isInitializing initial_session" "effects initial_session = []"
    by (simp_all add: initial_session_def)
  have b: "\<not> ok bad_response" "\<not> ok bad_ice_response"
    by (simp_all add: bad_response_def bad_ice_response_def)
  have g: "ok good_token_response"
    "json good_token_response = Inr \<lparr>body_error = None, body_session_token = Some ''tok''\<rparr>"
    by (simp_all add: good_token_response_def)
  show ?thesis
    using i b g
      session_start_failures[where s = initial_session and refs = True
        and tokenFetch = "Inr bad_response" and tresp = bad_response
        and iceFetch = "Inr bad_ice_response" and start = None and isMounted = True
        and sessionFetch = "Inr bad_response" and sres = bad_response and ires = bad_ice_response]
      session_start_failures[where s = initial_session and refs = True
        and tokenFetch = "Inr good_token_response" and tresp = good_token_response
        and tbody = "\<lparr>body_error = None, body_session_token = Some ''tok''\<rparr>"
        and iceFetch = "Inr bad_ice_response" and iresp = bad_ice_response and start = None]
    by simp
qed

text \<open>
  The token request succeeds and the ICE request answers with a failure status:
  \<open>initialize\<close> shows no error, builds the avatar client with the fallback STUN server,
  starts it and connects to Gemini.
\<close>

theorem initialize_ice_failure_continues:
  "initialize initial_session True (Inr good_token_response) (Inr bad_ice_response) None
     = initial_session\<lparr>isInitializing := True, error := Some [],
         simliClientRef := Some \<lparr>session_token = Some ''tok'',
                                 iceServers = IceArray [[''stun:stun.l.google.com:19302'']],
                                 running = True\<rparr>,
         isSimliReady := True,
         effects := [FetchToken, FetchIce, SimliStart, ConnectGemini],
         wsRef := Some CONNECTING\<rparr>"
  by (simp add: initialize_def initialize_try_def emit_def initial_session_def
      good_token_response_def bad_ice_response_def fallback_ice_def)

section \<open>Playback schedule\<close>

lemma play24kAudio_frame:
  assumes "frame \<noteq> []"
  shows "snd (play24kAudio s now frame) =
           Inr (max (now + LATENCY_COMPENSATION)
                  (if playbackContextRef s = None then now + LATENCY_COMPENSATION
                   else nextStartTimeRef s))"
    and "nextStartTimeRef (fst (play24kAudio s now frame)) =
           max (now + LATENCY_COMPENSATION)
             (if playbackContextRef s = None then now + LATENCY_COMPENSATION else nextStartTimeRef s)
           + duration frame"
    and "playbackContextRef (fst (play24kAudio s now frame)) \<noteq> None"
  using assms by (simp_all add: play24kAudio_def Let_def emit_def)

lemma schedule_frame:
  assumes "frame \<noteq> []"
  shows "schedule s ((now, frame) # rest) =
           (max (now + LATENCY_COMPENSATION)
              (if playbackContextRef s = None then now + LATENCY_COMPENSATION else nextStartTimeRef s),
            duration frame) # schedule (fst (play24kAudio s now frame)) rest"
  using play24kAudio_frame(1)[OF assms, of s now]
  by (cases "play24kAudio s now frame") (simp split: sum.splits)

lemma length_schedule:
  "\<forall>e \<in> set es. snd e \<noteq> [] \<Longrightarrow> length (schedule s es) = length es"
proof (induction es arbitrary: s)
  case Nil
  show ?case by simp
next
  case (Cons e es)
  obtain now frame where e: "e = (now, frame)" by (cases e)
  with Cons.prems have "frame \<noteq> []" by simp
  then show ?case using Cons e by (simp add: schedule_frame del: schedule.simps(2))
qed

lemma schedule_adjacent:
  assumes "\<forall>e \<in> set es. snd e \<noteq> []" and "Suc k < length es"
  shows "snd (schedule s es ! k) = duration (snd (es ! k))
     \<and> fst (schedule s es ! Suc k) =
         max (fst (es ! Suc k) + LATENCY_COMPENSATION) (fst (schedule s es ! k) + snd (schedule s es ! k))"
  using assms
proof (induction es arbitrary: s k)
  case Nil
  then show ?case by simp
next
  case (Cons e es)
  obtain now frame where e: "e = (now, frame)" by (cases e)
  with Cons.prems have f: "frame \<noteq> []" by simp
  from Cons.prems obtain e1 rest where es: "es = e1 # rest" by (cases es) auto
  obtain now1 frame1 where e1: "e1 = (now1, frame1)" by (cases e1)
  with Cons.prems es have f1: "frame1 \<noteq> []" by simp
  show ?case
  proof (cases k)
    case 0
    show ?thesis
      unfolding 0 e es e1
      by (simp add: schedule_frame[OF f] schedule_frame[OF f1] play24kAudio_frame[OF f]
          del: schedule.simps(2))
  next
    case (Suc k')
    with Cons.prems have "Suc k' < length es" by simp
    moreover from Cons.prems have "\<forall>e \<in> set es. snd e \<noteq> []" by simp
    ultimately show ?thesis
      using Cons.IH[of k' "fst (play24kAudio s now frame)"]
      unfolding Suc e by (simp add: schedule_frame[OF f] del: schedule.simps(2))
  qed
qed

text \<open>
  C1 (as amended): every frame (of at least one sample) is scheduled at
  \<open>startTime = max (now + LATENCY_COMPENSATION) nextStartTime\<close>, where \<open>nextStartTime\<close>
  was set to \<open>now + LATENCY_COMPENSATION\<close> when the playback context was created by this
  call, and afterwards \<open>nextStartTime = startTime + duration\<close>. So in every sequence of
  frames each frame starts at the maximum of its own \<open>now + LATENCY_COMPENSATION\<close> and
  the end of the frame before it, never before that end; and a frame that arrives while
  \<open>now + LATENCY_COMPENSATION\<close> is not past the end of the frame before it starts
  exactly at that end, later than the frame before it: no gap, no overlap.
\<close>

theorem playback_schedule:
  "(\<forall>e \<in> set es. snd e \<noteq> []) \<longrightarrow>
     length (schedule s es) = length es
   \<and> (\<forall>now frame. frame \<noteq> [] \<longrightarrow>
         snd (play24kAudio s now frame) =
           Inr (max (now + LATENCY_COMPENSATION)
                  (if playbackContextRef s = None then now + LATENCY_COMPENSATION
                   else nextStartTimeRef s))
         \<and> nextStartTimeRef (fst (play24kAudio s now frame)) =
             max (now + LATENCY_COMPENSATION)
               (if playbackContextRef s = None then now + LATENCY_COMPENSATION
                else nextStartTimeRef s)
             + duration frame)
   \<and> (\<forall>k. Suc k < length es \<longrightarrow>
         snd (schedule s es ! k) = duration (snd (es ! k))
       \<and> fst (schedule s es ! Suc k) =
           max (fst (es ! Suc k) + LATENCY_COMPENSATION)
               (fst (schedule s es ! k) + snd (schedule s es ! k))
       \<and> fst (schedule s es ! k) + snd (schedule s es ! k) \<le> fst (schedule s es ! Suc k)
       \<and> (fst (es ! Suc k) + LATENCY_COMPENSATION \<le> fst (schedule s es ! k) + snd (schedule s es ! k)
            \<longrightarrow> fst (schedule s es ! Suc k) = fst (schedule s es ! k) + snd (schedule s es ! k)
              \<and> fst (schedule s es ! k) < fst (schedule s es ! Suc k)))"
proof (intro impI conjI allI)
  assume a: "\<forall>e \<in> set es. snd e \<noteq> []"
  show "length (schedule s es) = length es" by (rule length_schedule[OF a])
  fix k
  assume k: "Suc k < length es"
  note adj = schedule_adjacent[OF a k, of s]
  show "snd (schedule s es ! k) = duration (snd (es ! k))" using adj by simp
  show "fst (schedule s es ! Suc k) =
           max (fst (es ! Suc k) + LATENCY_COMPENSATION)
               (fst (schedule s es ! k) + snd (schedule s es ! k))" using adj by simp
  show "fst (schedule s es ! k) + snd (schedule s es ! k) \<le> fst (schedule s es ! Suc k)"
    using adj by simp
  assume t: "fst (es ! Suc k) + LATENCY_COMPENSATION \<le> fst (schedule s es ! k) + snd (schedule s es ! k)"
  show "fst (schedule s es ! Suc k) = fst (schedule s es ! k) + snd (schedule s es ! k)"
    using adj t by simp
  have "snd (es ! k) \<noteq> []" using a k by simp
  then have "0 < duration (snd (es ! k))" by (simp add: duration_def)
  then have "0 < snd (schedule s es ! k)" using adj by presburger
  then show "fst (schedule s es ! k) < fst (schedule s es ! Suc k)"
    using adj t by simp
next
  fix now frame
  assume f: "(frame :: int16 list) \<noteq> []"
  show "snd (play24kAudio s now frame) =
           Inr (max (now + LATENCY_COMPENSATION)
                  (if playbackContextRef s = None then now + LATENCY_COMPENSATION
                   else nextStartTimeRef s))"
    by (rule play24kAudio_frame(1)[OF f])
  show "nextStartTimeRef (fst (play24kAudio s now frame)) =
             max (now + LATENCY_COMPENSATION)
               (if playbackContextRef s = None then now + LATENCY_COMPENSATION
                else nextStartTimeRef s)
             + duration frame"
    by (rule play24kAudio_frame(2)[OF f])
qed

theorem playback_schedule_witness:
  "fst (schedule initial_session [(0, replicate 2400 0), (5 / 100, replicate 2400 0)] ! Suc 0)
     = fst (schedule initial_session [(0, replicate 2400 0), (5 / 100, replicate 2400 0)] ! 0)
       + snd (schedule initial_session [(0, replicate 2400 0), (5 / 100, replicate 2400 0)] ! 0)
   \<and> schedule initial_session [(0, replicate 2400 0), (5 / 100, replicate 2400 0)] ! 0
       = (22 / 100, 1 / 10)
   \<and> snd (play24kAudio initial_session 0 (replicate 2400 0)) = Inr (22 / 100)"
proof -
  let ?es = "[(0 :: real, replicate 2400 (0 :: int16)), (5 / 100, replicate 2400 0)]"
  have ne: "\<forall>e \<in> set ?es. snd e \<noteq> []"
    by simp
  have first: "schedule initial_session ?es ! 0 = (22 / 100, 1 / 10)"
    by (simp add: schedule_frame initial_session_def LATENCY_COMPENSATION_def duration_def
        del: schedule.simps(2))
  have k: "Suc 0 < length ?es" by simp
  have t: "fst (?es ! Suc 0) + LATENCY_COMPENSATION
      \<le> fst (schedule initial_session ?es ! 0) + snd (schedule initial_session ?es ! 0)"
    unfolding first by (simp add: LATENCY_COMPENSATION_def)
  from playback_schedule[of ?es initial_session] ne k t
  have "fst (schedule initial_session ?es ! Suc 0)
      = fst (schedule initial_session ?es ! 0) + snd (schedule initial_session ?es ! 0)"
    by blast
  moreover from playback_schedule[of ?es initial_session] ne
  have "replicate 2400 (0 :: int16) \<noteq> [] \<longrightarrow>
      snd (play24kAudio initial_session 0 (replicate 2400 0)) =
        Inr (max (0 + LATENCY_COMPENSATION)
               (if playbackContextRef initial_session = None then 0 + LATENCY_COMPENSATION
                else nextStartTimeRef initial_session))"
    by blast
  then have "snd (play24kAudio initial_session 0 (replicate 2400 0)) = Inr (22 / 100)"
    by (simp add: initial_session_def LATENCY_COMPENSATION_def)
  ultimately show ?thesis using first by blast
qed

text \<open>
  Two frames of 100 ms. The second arrives 150 ms after the first, 50 ms later than the
  pace of the stream, a delay below \<open>LATENCY_COMPENSATION\<close>. It is scheduled 150 ms
  after the first: a gap of 50 ms.
\<close>

theorem playback_gap_under_small_delay:
  "duration (replicate 2400 0) = 1 / 10
   \<and> 15 / 100 - (0 + duration (replicate 2400 0)) < LATENCY_COMPENSATION
   \<and> schedule initial_session [(0, replicate 2400 0), (15 / 100, replicate 2400 0)]
       = [(22 / 100, 1 / 10), (37 / 100, 1 / 10)]
   \<and> (37 / 100 :: real) \<noteq> 22 / 100 + 1 / 10"
  by (simp add: schedule_frame play24kAudio_frame initial_session_def LATENCY_COMPENSATION_def
      duration_def del: schedule.simps(2))

section \<open>Resampling\<close>

lemma ratio_eq: "ratio = 3 / 2"
  by (simp add: ratio_def)

lemma floor_index: "\<lfloor>real i * ratio\<rfloor> = (3 * int i) div 2"
proof -
  have "real i * ratio = real_of_int (3 * int i) / real_of_int 2" by (simp add: ratio_eq)
  then show ?thesis by (simp only: floor_divide_of_int_eq)
qed

lemma ceiling_index: "\<lceil>real i * ratio\<rceil> = - (- (3 * int i) div 2)"
proof -
  have "real i * ratio = real_of_int (3 * int i) / real_of_int 2" by (simp add: ratio_eq)
  then show ?thesis by (simp only: ceiling_divide_eq_div)
qed

lemma js_round_length: "js_round (real n / ratio) = (4 * int n + 3) div 6"
proof -
  have "real n / ratio + 1 / 2 = real_of_int (4 * int n + 3) / real_of_int 6"
    by (simp add: ratio_eq field_simps)
  then show ?thesis unfolding js_round_def by (simp only: floor_divide_of_int_eq)
qed

lemma newLength_eq: "int (newLength audioData) = (4 * int (length audioData) + 3) div 6"
  by (simp add: newLength_def js_round_length)

lemma low_in_bounds:
  assumes "i < newLength audioData"
  shows "0 \<le> \<lfloor>real i * ratio\<rfloor>" and "\<lfloor>real i * ratio\<rfloor> < int (length audioData)"
proof -
  from assms have "int i < (4 * int (length audioData) + 3) div 6"
    using newLength_eq[of audioData] by linarith
  then have "(3 * int i) div 2 < int (length audioData)" by linarith
  then show "\<lfloor>real i * ratio\<rfloor> < int (length audioData)" by (simp only: floor_index)
  show "0 \<le> \<lfloor>real i * ratio\<rfloor>" unfolding floor_index by simp
qed

lemma high_in_bounds:
  assumes "i < newLength audioData"
  shows "\<lceil>real i * ratio\<rceil> < int (length audioData)"
proof -
  from assms have "int i < (4 * int (length audioData) + 3) div 6"
    using newLength_eq[of audioData] by linarith
  then have "- (- (3 * int i) div 2) < int (length audioData)" by linarith
  then show ?thesis by (simp only: ceiling_index)
qed

lemma js_trunc_of_int: "js_trunc (real_of_int k) = k"
  by (simp add: js_trunc_def flip: of_int_minus)

lemma toInt16_sint: "toInt16 (real_of_int (sint w)) = w"
  unfolding toInt16_def js_trunc_of_int by simp

lemma store16_ta_get:
  assumes "0 \<le> j" and "j < int (length audioData)"
  shows "store16 (ta_get audioData j) = audioData ! nat j"
  using assms unfolding store16_def ta_get_def by (simp add: toInt16_sint del: of_int_sint)

lemma linear_step_reads:
  assumes "i < newLength audioData" and "j \<in> set (fst (linear_step audioData i))"
  shows "0 \<le> j \<and> j < int (length audioData)"
proof -
  note low = low_in_bounds[OF assms(1)]
  have "\<lfloor>real i * ratio\<rfloor> \<le> \<lceil>real i * ratio\<rceil>" by (rule floor_le_ceiling)
  then show ?thesis using assms(2) low
    by (auto simp: linear_step_def Let_def split: if_splits)
qed

lemma filter_step_reads:
  assumes "i < newLength audioData" and "j \<in> set (fst (filter_step audioData i))"
  shows "0 \<le> j \<and> j < int (length audioData)"
  using assms(2) low_in_bounds[OF assms(1)]
  by (auto simp: filter_step_def Let_def split: if_splits)

lemma linear_first:
  assumes "0 < newLength audioData"
  shows "downsampleTo16k_linear audioData ! 0 = audioData ! 0"
proof -
  have n: "0 < length audioData" using low_in_bounds(2)[OF assms] by simp
  then have "snd (linear_step audioData 0) = audioData ! 0"
    by (simp add: linear_step_def ta_get_def jmul_def jadd_def store16_def toInt16_sint
        del: of_int_sint)
  then show ?thesis using assms by (simp add: downsampleTo16k_linear_def)
qed

text \<open>
  C5: for every input, both variants of \<open>downsampleTo16k\<close> produce
  \<open>round (length / 1.5)\<close> samples (so the length differs from that number by at most
  one), and every index of \<open>audioData\<close> that an iteration of either loop reads lies
  inside the array. In the linear variant the upper neighbour is always inside the array,
  so its copy branch is never needed, and its first output sample is the first input
  sample. In the 3-tap variant an output sample whose window would leave the array
  (centre at the first index, or at the last index or past it) is a copy of the input
  sample at the centre.
\<close>

theorem downsample_length_and_bounds:
  "length (downsampleTo16k_linear audioData) = nat (js_round (real (length audioData) / (3 / 2)))
   \<and> length (downsampleTo16k audioData) = nat (js_round (real (length audioData) / (3 / 2)))
   \<and> \<bar>int (length (downsampleTo16k audioData)) - js_round (real (length audioData) / (3 / 2))\<bar> \<le> 1
   \<and> (0 < newLength audioData \<longrightarrow> downsampleTo16k_linear audioData ! 0 = audioData ! 0)
   \<and> (\<forall>i < newLength audioData.
        (\<forall>j \<in> set (fst (linear_step audioData i)). 0 \<le> j \<and> j < int (length audioData))
      \<and> (\<forall>j \<in> set (fst (filter_step audioData i)). 0 \<le> j \<and> j < int (length audioData))
      \<and> \<lceil>real i * ratio\<rceil> < int (length audioData)
      \<and> (\<not> (0 < \<lfloor>real i * ratio\<rfloor> \<and> \<lfloor>real i * ratio\<rfloor> < int (length audioData) - 1) \<longrightarrow>
            downsampleTo16k audioData ! i = audioData ! nat \<lfloor>real i * ratio\<rfloor>))"
proof (intro conjI allI impI ballI)
  have nl: "newLength audioData = nat (js_round (real (length audioData) / (3 / 2)))"
    by (simp add: newLength_def ratio_eq)
  show "length (downsampleTo16k_linear audioData) = nat (js_round (real (length audioData) / (3 / 2)))"
    by (simp add: downsampleTo16k_linear_def nl)
  show l: "length (downsampleTo16k audioData) = nat (js_round (real (length audioData) / (3 / 2)))"
    by (simp add: downsampleTo16k_def nl)
  have "0 \<le> js_round (real (length audioData) / (3 / 2))"
    using js_round_length[of "length audioData"] by (simp add: ratio_eq)
  then show "\<bar>int (length (downsampleTo16k audioData)) - js_round (real (length audioData) / (3 / 2))\<bar> \<le> 1"
    unfolding l by simp
next
  assume "0 < newLength audioData"
  then show "downsampleTo16k_linear audioData ! 0 = audioData ! 0" by (rule linear_first)
next
  fix i j
  assume i: "i < newLength audioData"
  {
    assume "j \<in> set (fst (linear_step audioData i))"
    from linear_step_reads[OF i this] show "0 \<le> j" and "j < int (length audioData)" by simp_all
  }
  {
    assume "j \<in> set (fst (filter_step audioData i))"
    from filter_step_reads[OF i this] show "0 \<le> j" and "j < int (length audioData)" by simp_all
  }
next
  fix i
  assume i: "i < newLength audioData"
  note low = low_in_bounds[OF i]
  show "\<lceil>real i * ratio\<rceil> < int (length audioData)" by (rule high_in_bounds[OF i])
  {
    assume h: "\<not> (0 < \<lfloor>real i * ratio\<rfloor> \<and> \<lfloor>real i * ratio\<rfloor> < int (length audioData) - 1)"
    have "snd (filter_step audioData i) = store16 (ta_get audioData \<lfloor>real i * ratio\<rfloor>)"
      unfolding filter_step_def Let_def by (subst if_not_P, rule h, simp)
    then show "downsampleTo16k audioData ! i = audioData ! nat \<lfloor>real i * ratio\<rfloor>"
      using i store16_ta_get[OF low] by (simp add: downsampleTo16k_def)
  }
qed

theorem downsample_length_and_bounds_witness:
  "length (downsampleTo16k [10, 20, 30, 40, 50, 60, 70]) = 5
   \<and> downsampleTo16k [10, 20, 30, 40, 50, 60, 70] ! 4 = 70
   \<and> downsampleTo16k_linear [10, 20, 30, 40, 50, 60, 70] ! 0 = 10
   \<and> \<lceil>real 4 * ratio\<rceil> < (7 :: int)"
proof -
  let ?xs = "[10 :: int16, 20, 30, 40, 50, 60, 70]"
  have n: "4 < newLength ?xs" and n0: "0 < newLength ?xs"
    by (simp_all add: newLength_def js_round_def ratio_eq)
  have f: "\<lfloor>real 4 * ratio\<rfloor> = 6"
    by (simp add: ratio_eq)
  have j: "js_round (real (length ?xs) / (3 / 2)) = 5"
    by (simp add: js_round_def)
  note T = downsample_length_and_bounds[of ?xs]
  from T j have len: "length (downsampleTo16k ?xs) = 5" by simp
  from T n0 have first: "downsampleTo16k_linear ?xs ! 0 = 10" by simp
  from T have "\<forall>i < newLength ?xs.
        (\<forall>j \<in> set (fst (linear_step ?xs i)). 0 \<le> j \<and> j < int (length ?xs))
      \<and> (\<forall>j \<in> set (fst (filter_step ?xs i)). 0 \<le> j \<and> j < int (length ?xs))
      \<and> \<lceil>real i * ratio\<rceil> < int (length ?xs)
      \<and> (\<not> (0 < \<lfloor>real i * ratio\<rfloor> \<and> \<lfloor>real i * ratio\<rfloor> < int (length ?xs) - 1) \<longrightarrow>
            downsampleTo16k ?xs ! i = ?xs ! nat \<lfloor>real i * ratio\<rfloor>)"
    by blast
  from this[rule_format, OF n] have
    a: "\<lceil>real 4 * ratio\<rceil> < int (length ?xs)"
    and c: "\<not> (0 < \<lfloor>real 4 * ratio\<rfloor> \<and> \<lfloor>real 4 * ratio\<rfloor> < int (length ?xs) - 1) \<longrightarrow>
            downsampleTo16k ?xs ! 4 = ?xs ! nat \<lfloor>real 4 * ratio\<rfloor>"
    by blast+
  have "downsampleTo16k ?xs ! 4 = 70" using c unfolding f by (simp add: numeral_eq_Suc)
  then show ?thesis using len a first by simp
qed

section \<open>Quantisation\<close>

lemma sint_toInt16:
  assumes "- 32768 \<le> js_trunc v" and "js_trunc v \<le> 32767"
  shows "sint (toInt16 v) = js_trunc v"
proof -
  have "signed_take_bit 15 (js_trunc v) = js_trunc v"
    using assms by (intro signed_take_bit_int_eq_self) simp_all
  then show ?thesis by (simp add: toInt16_def signed_of_int)
qed

lemma js_trunc_nonneg:
  assumes "0 \<le> v"
  shows "0 \<le> js_trunc v" and "real_of_int (js_trunc v) \<le> v" and "v < real_of_int (js_trunc v) + 1"
  using assms by (simp_all add: js_trunc_def)

lemma js_trunc_neg:
  assumes "v < 0"
  shows "js_trunc v \<le> 0" and "v \<le> real_of_int (js_trunc v)" and "real_of_int (js_trunc v) - 1 < v"
  using assms by (simp_all add: js_trunc_def) linarith+

lemma store_exact:
  assumes "- 32769 < v" and "v < 32768"
  shows "sint (toInt16 v) = js_trunc v"
proof (cases "v < 0")
  case True
  note t = js_trunc_neg[OF True]
  have "- 32768 \<le> js_trunc v" using t(2) assms(1) by linarith
  moreover have "js_trunc v \<le> 32767" using t(1) by simp
  ultimately show ?thesis by (rule sint_toInt16)
next
  case False
  then have v: "0 \<le> v" by simp
  note t = js_trunc_nonneg[OF v]
  have "- 32768 \<le> js_trunc v" using t(1) by simp
  moreover have "js_trunc v \<le> 32767" using t(2) assms(2) by linarith
  ultimately show ?thesis by (rule sint_toInt16)
qed

text \<open>
  In exact arithmetic, for every other sample and draw the worklet stores the truncated
  scaled value itself: over the reals the wrap-around happens only for a sample clamped to
  \<open>-1\<close> with the draw 0. (In binary floating point the sum \<open>-1 + dither\<close> is
  rounded, and draws close enough to 0 wrap as the draw 0 does.)
\<close>

lemma worklet_store_exact:
  assumes "0 \<le> r" and "r < 1" and "\<not> (x \<le> - 1 \<and> r = 0)"
  shows "sint (pcm_sample x r) =
           js_trunc (if max (- 1) (min 1 x) + (r * 2 - 1) / 32768 < 0
                     then (max (- 1) (min 1 x) + (r * 2 - 1) / 32768) * 32768
                     else (max (- 1) (min 1 x) + (r * 2 - 1) / 32768) * 32767)"
proof -
  define s where "s = max (- 1) (min 1 x) + (r * 2 - 1) / 32768"
  have c: "- 1 \<le> max (- 1) (min 1 x)" "max (- 1) (min 1 x) \<le> 1" by simp_all
  have "- 1 - 1 / 32768 < s"
  proof (cases "x \<le> - 1")
    case True
    then have "0 < r" using assms by simp
    moreover have "max (- 1) (min 1 x) = - 1" using True by simp
    ultimately show ?thesis by (simp add: s_def field_simps)
  next
    case False
    then have "- 1 < max (- 1) (min 1 x)" by simp
    then show ?thesis using assms(1) by (simp add: s_def field_simps)
  qed
  then have lo: "- 32769 < (if s < 0 then s * 32768 else s * 32767)" by (simp add: field_simps)
  have "s < 1 + 1 / 32768" using c(2) assms(2) by (simp add: s_def field_simps)
  then have hi: "(if s < 0 then s * 32768 else s * 32767) < 32768" by (simp add: field_simps)
  show ?thesis
    using store_exact[OF lo hi] unfolding s_def pcm_sample_def Let_def
    by (simp split: if_splits)
qed

text \<open>
  Away from the wrap-around, the quantised value decoded with the asymmetric scale is
  within one step of the scaled sample.
\<close>

lemma decode_scaled:
  assumes "- 32769 < (if s < 0 then s * 32768 else s * 32767)" and "s \<le> 1 + 1 / 32768"
  shows "\<bar>pcm16ToFloat_asym (toInt16 (if s < 0 then s * 32768 else s * 32767)) - s\<bar> < 1 / 32767"
proof (cases "s < 0")
  case True
  let ?v = "s * 32768"
  have v: "?v < 0" using True by simp
  note t = js_trunc_neg[OF v]
  have lo: "- 32768 \<le> js_trunc ?v" using t(2) assms(1) True by simp
  have hi: "js_trunc ?v \<le> 32767" using t(1) by simp
  have sv: "sint (toInt16 ?v) = js_trunc ?v" by (rule sint_toInt16[OF lo hi])
  show ?thesis
  proof (cases "js_trunc ?v < 0")
    case True
    have "\<bar>real_of_int (js_trunc ?v) / 32768 - s\<bar> < 1 / 32768"
      using t(2,3) by (simp add: field_simps abs_less_iff)
    then show ?thesis using \<open>s < 0\<close> True sv by (simp add: pcm16ToFloat_asym_def)
  next
    case False
    then have z: "js_trunc ?v = 0" using t(1) by simp
    have "\<bar>s\<bar> < 1 / 32768" using t(3) v unfolding z by (simp add: field_simps abs_less_iff)
    then show ?thesis using \<open>s < 0\<close> sv z by (simp add: pcm16ToFloat_asym_def)
  qed
next
  case False
  let ?v = "s * 32767"
  have v: "0 \<le> ?v" using False by simp
  note t = js_trunc_nonneg[OF v]
  have "?v < 32768" using assms(2) by (simp add: field_simps)
  then have hi: "js_trunc ?v \<le> 32767" using t(2) by linarith
  have lo: "- 32768 \<le> js_trunc ?v" using t(1) by simp
  have sv: "sint (toInt16 ?v) = js_trunc ?v" by (rule sint_toInt16[OF lo hi])
  have "\<bar>real_of_int (js_trunc ?v) / 32767 - s\<bar> < 1 / 32767"
    using t(2,3) by (simp add: field_simps abs_less_iff)
  then show ?thesis using False sv t(1) by (simp add: pcm16ToFloat_asym_def)
qed

lemma float32ToInt16_error:
  assumes "- 1 \<le> x" and "x \<le> 1"
  shows "\<bar>pcm16ToFloat_asym (float32ToInt16_sample x) - x\<bar> < 1 / 32767"
proof -
  have c: "max (- 1) (min 1 x) = x" using assms by simp
  have "- 32769 < (if x < 0 then x * 32768 else x * 32767)" using assms by simp
  moreover have "x \<le> 1 + 1 / 32768" using assms by simp
  ultimately show ?thesis
    unfolding float32ToInt16_sample_def Let_def c by (rule decode_scaled)
qed

lemma worklet_error_bound:
  assumes "- 1 \<le> x" and "x \<le> 1" and "0 \<le> r" and "r < 1" and "\<not> (x = - 1 \<and> r = 0)"
  shows "\<bar>pcm16ToFloat_asym (pcm_sample x r) - x\<bar> < 1 / 32767 + 1 / 32768"
proof -
  define s where "s = x + (r * 2 - 1) / 32768"
  have c: "max (- 1) (min 1 x) = x" using assms by simp
  have d: "\<bar>s - x\<bar> \<le> 1 / 32768" using assms(3,4) by (simp add: s_def field_simps abs_le_iff)
  have "- 1 - 1 / 32768 < s"
    using assms by (cases "x = - 1") (simp_all add: s_def field_simps)
  then have "- 32769 < (if s < 0 then s * 32768 else s * 32767)" by (simp add: field_simps)
  moreover have "s \<le> 1 + 1 / 32768" using assms(2,4) by (simp add: s_def field_simps)
  ultimately have e: "\<bar>pcm16ToFloat_asym (toInt16 (if s < 0 then s * 32768 else s * 32767)) - s\<bar> < 1 / 32767"
    by (rule decode_scaled)
  have p: "pcm_sample x r = toInt16 (if s < 0 then s * 32768 else s * 32767)"
    by (simp add: pcm_sample_def Let_def c s_def)
  show ?thesis unfolding p using e d by linarith
qed

text \<open>
  C10: the worklet at a sample of \<open>-1\<close> with the draw \<open>Math.random() = 0\<close>. The clamped
  sample is \<open>-1\<close>, the dither \<open>-1/32768\<close> is added after the clamp, the scaled value is
  \<open>-32769\<close>, below the least 16-bit value, and the store into the \<open>Int16Array\<close> wraps
  it around to \<open>32767\<close>.
\<close>

theorem pcm_sample_wraps:
  "(max (- 1) (min 1 (- 1 :: real)) + (0 * 2 - 1) / 32768) * 32768 = - 32769
   \<and> pcm_sample (- 1) 0 = 32767
   \<and> sint (pcm_sample (- 1) 0) = 32767
   \<and> process [[- 1]] [0] = Some [32767]"
  by (simp add: pcm_sample_def process_def toInt16_def js_trunc_def)

text \<open>
  C4: at the same sample and draw, the value the worklet stores decodes to a float that
  is about 2 away from the input \<open>-1\<close>, with the decoder of \<open>play24kAudio\<close> as with the
  decoder that undoes the asymmetric scale: far more than one quantisation step plus the
  dither amplitude.
\<close>

theorem pcm_sample_error_at_wrap:
  "\<bar>pcm16ToFloat (pcm_sample (- 1) 0) - (- 1)\<bar> = 65535 / 32768
   \<and> \<bar>pcm16ToFloat_asym (pcm_sample (- 1) 0) - (- 1)\<bar> = 2
   \<and> (1 / 32767 + 1 / 32768 :: real) < 65535 / 32768"
  by (simp add: pcm_sample_def toInt16_def js_trunc_def pcm16ToFloat_def pcm16ToFloat_asym_def)

end
